theory Spec2Isabelle
  imports Complex_Main
begin

section \<open>JavaScript values\<close>

text \<open>
  A JavaScript number is idealised as an exact rational, or \<open>NaN\<close>: rounding of IEEE
  doubles and the infinities are outside the model. Values that reach arithmetic
  (\<open>undefined\<close>, \<open>null\<close>, a number) are kept apart from general field values, which may
  also be strings, so that \<open>ToNumber\<close> is only ever taken of a non-string.
\<close>

datatype jsnum = NaN | Num rat

datatype numeric = NUndefined | NNull | NNumber jsnum

datatype jsval = Undefined | Null | Number jsnum | Str string

fun inject :: "numeric \<Rightarrow> jsval" where
  "inject NUndefined = Undefined"
| "inject NNull = Null"
| "inject (NNumber n) = Number n"

text \<open>\<open>ToNumber\<close>: \<open>undefined\<close> is \<open>NaN\<close>, \<open>null\<close> is \<open>0\<close>.\<close>

fun to_number :: "numeric \<Rightarrow> jsnum" where
  "to_number NUndefined = NaN"
| "to_number NNull = Num 0"
| "to_number (NNumber n) = n"

fun num_mul :: "jsnum \<Rightarrow> jsnum \<Rightarrow> jsnum" where
  "num_mul (Num a) (Num b) = Num (a * b)"
| "num_mul _ _ = NaN"

fun num_sub :: "jsnum \<Rightarrow> jsnum \<Rightarrow> jsnum" where
  "num_sub (Num a) (Num b) = Num (a - b)"
| "num_sub _ _ = NaN"

fun num_add :: "jsnum \<Rightarrow> jsnum \<Rightarrow> jsnum" where
  "num_add (Num a) (Num b) = Num (a + b)"
| "num_add _ _ = NaN"

text \<open>The binary \<open>-\<close> of JavaScript on values that are not strings.\<close>

definition js_minus :: "numeric \<Rightarrow> numeric \<Rightarrow> jsnum" where
  "js_minus a b = num_sub (to_number a) (to_number b)"

text \<open>Truthiness, as tested by \<open>if (v)\<close>, \<open>!v\<close> and \<open>v ? a : b\<close>.\<close>

fun num_truthy :: "jsnum \<Rightarrow> bool" where
  "num_truthy NaN = False"
| "num_truthy (Num r) = (r \<noteq> 0)"

fun truthy :: "jsval \<Rightarrow> bool" where
  "truthy Undefined = False"
| "truthy Null = False"
| "truthy (Number n) = num_truthy n"
| "truthy (Str s) = (s \<noteq> [])"

definition numeric_truthy :: "numeric \<Rightarrow> bool" where
  "numeric_truthy v = truthy (inject v)"

text \<open>Strict equality \<open>===\<close>: \<open>NaN\<close> differs from itself.\<close>

fun strict_eq :: "jsval \<Rightarrow> jsval \<Rightarrow> bool" where
  "strict_eq (Number NaN) _ = False"
| "strict_eq _ (Number NaN) = False"
| "strict_eq a b = (a = b)"

section \<open>Decimal digits and \<open>parseInt\<close>\<close>

definition digit_char :: "nat \<Rightarrow> char" where
  "digit_char d = ''0123456789'' ! d"

text \<open>\<open>Number.prototype.toString\<close> of a non-negative integer, such as a counter.\<close>

fun show_nat :: "nat \<Rightarrow> string" where
  "show_nat n =
     (if n < 10 then [digit_char n] else show_nat (n div 10) @ [digit_char (n mod 10)])"

declare show_nat.simps [simp del]

definition is_ws :: "char \<Rightarrow> bool" where
  "is_ws c = (of_char c \<in> {9, 10, 11, 12, 13, 32, 160 :: nat})"

definition digit_val :: "char \<Rightarrow> nat option" where
  "digit_val c =
     (let n = (of_char c :: nat) in
      if 48 \<le> n \<and> n \<le> 57 then Some (n - 48)
      else if 97 \<le> n \<and> n \<le> 122 then Some (n - 87)
      else if 65 \<le> n \<and> n \<le> 90 then Some (n - 55)
      else None)"

definition is_radix_digit :: "nat \<Rightarrow> char \<Rightarrow> bool" where
  "is_radix_digit R c = (case digit_val c of None \<Rightarrow> False | Some d \<Rightarrow> d < R)"

definition radix_value :: "nat \<Rightarrow> string \<Rightarrow> nat" where
  "radix_value R z = foldl (\<lambda>a c. a * R + the (digit_val c)) 0 z"

text \<open>
  \<open>parseInt(s)\<close> with no radix: leading white space is skipped, a sign is read, a
  \<open>0x\<close>/\<open>0X\<close> prefix selects radix 16, and the longest prefix of digits is the value;
  what follows the digits is ignored, and no digit at all gives \<open>NaN\<close>.
\<close>

definition strip_sign :: "string \<Rightarrow> int \<times> string" where
  "strip_sign s =
     (case s of
        c # r \<Rightarrow> if c = CHR ''-'' then (-1, r) else if c = CHR ''+'' then (1, r) else (1, s)
      | [] \<Rightarrow> (1, s))"

definition strip_prefix :: "string \<Rightarrow> nat \<times> string" where
  "strip_prefix s =
     (case s of
        c # d # r \<Rightarrow> if c = CHR ''0'' \<and> (d = CHR ''x'' \<or> d = CHR ''X'') then (16, r) else (10, s)
      | _ \<Rightarrow> (10, s))"

definition parseInt_int :: "string \<Rightarrow> int option" where
  "parseInt_int s =
     (let (sign, s2) = strip_sign (dropWhile is_ws s);
          (R, s3) = strip_prefix s2;
          z = takeWhile (is_radix_digit R) s3
      in if z = [] then None else Some (sign * int (radix_value R z)))"

definition parseInt :: "string \<Rightarrow> jsnum" where
  "parseInt s = (case parseInt_int s of None \<Rightarrow> NaN | Some i \<Rightarrow> Num (of_int i))"

section \<open>The diagnostics log\<close>

text \<open>The global \<open>errors\<close> array: every entry pushed is appended to the list.\<close>

record diagnostic =
  d_type :: string
  d_function :: string
  d_message :: string
  d_data :: "(string \<times> jsval) list"

section \<open>Exceptions\<close>

text \<open>
  The exceptions that the modelled code can throw, and the sequencing of two steps of
  which the first may throw.
\<close>

datatype error = TypeError | RangeError

definition bind :: "error + 'a \<Rightarrow> ('a \<Rightarrow> error + 'b) \<Rightarrow> error + 'b" where
  "bind r f = (case r of Inl e \<Rightarrow> Inl e | Inr x \<Rightarrow> f x)"

section \<open>\<open>Map.convertTimestamp\<close>\<close>

text \<open>
  \<open>yearOne\<close> is \<open>d.valueOf()\<close> for the \<open>Date\<close> the code builds as local midnight of
  1 January of year 1; it depends on the time zone of the machine. A \<open>format\<close> that is
  \<open>undefined\<close> takes the default \<open>'C'\<close>. The result is \<open>null\<close>, a number, or (for an
  unknown format) the argument itself.
\<close>

definition convertTimestamp ::
  "rat \<Rightarrow> jsval \<Rightarrow> jsval \<Rightarrow> diagnostic list \<Rightarrow> numeric \<times> diagnostic list" where
  "convertTimestamp yearOne timestamp format0 errors =
     (let format = (if format0 = Undefined then Str ''C'' else format0) in
      if timestamp = Null then
        (NNull, errors @ [\<lparr> d_type = ''error'', d_function = ''convertTimestamp'',
                           d_message = ''invalid timestamp'',
                           d_data = [(''timestamp'', timestamp), (''format'', format)] \<rparr>])
      else
        let t = (case timestamp of
                   Str s \<Rightarrow> NNumber (parseInt s)
                 | Number n \<Rightarrow> NNumber n
                 | _ \<Rightarrow> NUndefined)
        in if format = Str ''pythonic'' then
             (NNumber (num_mul (to_number t) (Num 1000)), errors)
           else if format = Str ''C'' then
             (NNumber (num_sub (num_mul (to_number t) (Num (1 / 10000))) (Num yearOne)), errors)
           else (t, errors))"

section \<open>\<open>Chrono\<close>: the event\<close>

text \<open>
  The fields \<open>type\<close>, \<open>key\<close>, \<open>title\<close>, \<open>description\<close>, \<open>tags\<close> and \<open>myPrimaryTagKey\<close>
  are declared \<open>string\<close>; at run time they also hold \<open>null\<close> or \<open>undefined\<close>, and the
  pairing writes the result of a \<open>+\<close> into \<open>tags\<close>, which may be a number. \<open>start\<close> and
  \<open>end\<close> are declared \<open>number\<close> and may be \<open>null\<close>. The constructor takes a
  parameter \<open>tags\<close> but assigns neither \<open>this.tags\<close> nor \<open>this.myPrimaryTagKey\<close>: both
  read as \<open>undefined\<close> until the pairing writes them.
\<close>

record Chrono =
  c_type :: jsval
  c_key :: jsval
  c_title :: jsval
  c_description :: jsval
  c_start :: numeric
  c_end :: numeric
  c_duration :: jsnum
  c_tags :: jsval
  c_myPrimaryTagKey :: jsval

definition new_Chrono ::
  "jsval \<Rightarrow> jsval \<Rightarrow> jsval \<Rightarrow> jsval \<Rightarrow> numeric \<Rightarrow> numeric \<Rightarrow> jsval
     \<Rightarrow> diagnostic list \<Rightarrow> Chrono \<times> diagnostic list" where
  "new_Chrono type key title description start end0 tags errors =
     (let end1 = (if end0 = NUndefined then NNull else end0);
          this_end = (if end1 = NNull \<or> end1 = NNumber (Num 0) then start else end1);
          this = \<lparr> c_type = type, c_key = key, c_title = title, c_description = description,
                   c_start = start, c_end = this_end, c_duration = js_minus this_end start,
                   c_tags = Undefined, c_myPrimaryTagKey = Undefined \<rparr>
      in if \<not> numeric_truthy start then
           (this, errors @ [\<lparr> d_type = ''warn'', d_function = ''Chron.constructor'',
                               d_message = ''invalid start time'',
                               d_data = [(''start'', inject start), (''end'', inject this_end)] \<rparr>])
         else (this, errors))"

section \<open>Strings and arrays of cells\<close>

text \<open>
  \<open>String.prototype.split\<close> with a string separator: the empty separator cuts between
  all characters, any other separator cuts at each of its occurrences from the left.
\<close>

fun split_at :: "string \<Rightarrow> string \<Rightarrow> string \<Rightarrow> string list" where
  "split_at sep acc [] = [acc]"
| "split_at sep acc (c # cs) =
     (if sep \<noteq> [] \<and> take (length sep) (c # cs) = sep
      then acc # split_at sep [] (drop (length sep - 1) cs)
      else split_at sep (acc @ [c]) cs)"

definition js_split :: "string \<Rightarrow> string \<Rightarrow> string list" where
  "js_split sep s = (if sep = [] then map (\<lambda>c. [c]) s else split_at sep [] s)"

text \<open>\<open>Array.prototype.join\<close> of strings.\<close>

fun js_join :: "string \<Rightarrow> string list \<Rightarrow> string" where
  "js_join sep [] = []"
| "js_join sep [x] = x"
| "js_join sep (x # y # ys) = x @ sep @ js_join sep (y # ys)"

text \<open>
  A property name is an array index when it is the canonical decimal numeral of a
  natural number (\<open>0\<close>, or digits without a leading zero).
\<close>

definition is_dec_digit :: "char \<Rightarrow> bool" where
  "is_dec_digit c = (48 \<le> (of_char c :: nat) \<and> (of_char c :: nat) \<le> 57)"

definition canonical_index :: "string \<Rightarrow> nat option" where
  "canonical_index s =
     (if s \<noteq> [] \<and> list_all is_dec_digit s \<and> (s = ''0'' \<or> hd s \<noteq> CHR ''0'')
      then Some (radix_value 10 s) else None)"

text \<open>
  \<open>row[name]\<close> on an array of cells: an index reads the cell or \<open>undefined\<close> past the
  end, \<open>length\<close> reads the length, any other name is \<open>undefined\<close> (the methods inherited
  from \<open>Array.prototype\<close> are outside the model).
\<close>

definition row_get :: "string list \<Rightarrow> string \<Rightarrow> jsval" where
  "row_get row name =
     (case canonical_index name of
        Some i \<Rightarrow> if i < length row then Str (row ! i) else Undefined
      | None \<Rightarrow> if name = ''length'' then Number (Num (of_nat (length row))) else Undefined)"

section \<open>\<open>Map\<close>: the mapping specification\<close>

text \<open>
  A field of the mapping is \<open>null\<close>, a column index (a number), a string, or a list of
  keys. Used as a property name, a number is its decimal numeral and a list is its
  elements joined by commas.
\<close>

datatype mapfield = MNull | MIndex nat | MStatic string | MPath "string list"

fun property_name :: "mapfield \<Rightarrow> string" where
  "property_name MNull = ''null''"
| "property_name (MIndex i) = show_nat i"
| "property_name (MStatic s) = s"
| "property_name (MPath ks) = js_join '','' ks"

record Map =
  m_type :: mapfield
  m_key :: mapfield
  m_title :: mapfield
  m_description :: mapfield
  m_start :: mapfield
  m_end :: mapfield
  m_tags :: mapfield
  m_firstRow :: bool
  m_timestampFormat :: jsval
  m_sep :: string

text \<open>
  The environment of a conversion: \<open>timeOffset\<close> is the global of that name, \<open>year_one\<close>
  the value of the \<open>Date\<close> that \<open>convertTimestamp\<close> builds.
\<close>

record env =
  timeOffset :: numeric
  year_one :: rat

text \<open>\<open>(f === null) ? null : row[f]\<close>\<close>

definition csv_field :: "mapfield \<Rightarrow> string list \<Rightarrow> jsval" where
  "csv_field f row = (if f = MNull then Null else row_get row (property_name f))"

text \<open>\<open>(f === null) ? null : Map.convertTimestamp(row[f], format) - timeOffset\<close>\<close>

definition csv_time ::
  "env \<Rightarrow> mapfield \<Rightarrow> jsval \<Rightarrow> string list \<Rightarrow> diagnostic list \<Rightarrow> numeric \<times> diagnostic list" where
  "csv_time e f format row errors =
     (if f = MNull then (NNull, errors)
      else let (t, errors') = convertTimestamp (year_one e) (row_get row (property_name f)) format errors
           in (NNumber (js_minus t (timeOffset e)), errors'))"

text \<open>The body of the loop of \<open>convertCsv\<close>: one line of the file to one \<open>Chrono\<close>.\<close>

definition convertCsv_row ::
  "env \<Rightarrow> Map \<Rightarrow> string \<Rightarrow> diagnostic list \<Rightarrow> Chrono \<times> diagnostic list" where
  "convertCsv_row e m line errors =
     (let row = js_split (m_sep m) line;
          (start, errors1) = csv_time e (m_start m) (m_timestampFormat m) row errors;
          (end, errors2) = csv_time e (m_end m) (m_timestampFormat m) row errors1
      in new_Chrono (csv_field (m_type m) row) (csv_field (m_key m) row)
           (csv_field (m_title m) row) (csv_field (m_description m) row)
           start end (csv_field (m_tags m) row) errors2)"

fun convertCsv_loop ::
  "env \<Rightarrow> Map \<Rightarrow> string list \<Rightarrow> Chrono list \<Rightarrow> diagnostic list \<Rightarrow> Chrono list \<times> diagnostic list" where
  "convertCsv_loop e m [] chronos errors = (chronos, errors)"
| "convertCsv_loop e m (line # rest) chronos errors =
     (let (c, errors') = convertCsv_row e m line errors
      in convertCsv_loop e m rest (chronos @ [c]) errors')"

definition convertCsv ::
  "env \<Rightarrow> Map \<Rightarrow> string list \<Rightarrow> diagnostic list \<Rightarrow> Chrono list \<times> diagnostic list" where
  "convertCsv e m data errors =
     convertCsv_loop e m (drop (if m_firstRow m then 1 else 0) data) [] errors"

section \<open>String conversion\<close>

definition show_int :: "int \<Rightarrow> string" where
  "show_int i = (if i < 0 then CHR ''-'' # show_nat (nat (- i)) else show_nat (nat i))"

text \<open>
  \<open>Number::toString\<close>. An integer below \<open>10\<^sup>2\<^sup>1\<close> in absolute value prints as its decimal
  numeral. The digits of any other number depend on the rounding of doubles, which the
  idealised numbers do not have: they are left to the parameter \<open>digits\<close>.
\<close>

fun number_to_string :: "(rat \<Rightarrow> string) \<Rightarrow> jsnum \<Rightarrow> string" where
  "number_to_string digits NaN = ''NaN''"
| "number_to_string digits (Num r) =
     (if r = of_int \<lfloor>r\<rfloor> \<and> \<bar>r\<bar> < 10 ^ 21 then show_int \<lfloor>r\<rfloor> else digits r)"

fun to_string :: "(rat \<Rightarrow> string) \<Rightarrow> jsval \<Rightarrow> string" where
  "to_string digits Undefined = ''undefined''"
| "to_string digits Null = ''null''"
| "to_string digits (Number n) = number_to_string digits n"
| "to_string digits (Str s) = s"

text \<open>The binary \<open>+\<close>: concatenation as soon as one side is a string, addition otherwise.\<close>

fun js_add :: "(rat \<Rightarrow> string) \<Rightarrow> jsval \<Rightarrow> jsval \<Rightarrow> jsval" where
  "js_add digits (Str a) b = Str (a @ to_string digits b)"
| "js_add digits a (Str b) = Str (to_string digits a @ b)"
| "js_add digits Undefined b = Number NaN"
| "js_add digits a Undefined = Number NaN"
| "js_add digits Null Null = Number (Num 0)"
| "js_add digits Null (Number n) = Number (num_add (Num 0) n)"
| "js_add digits (Number n) Null = Number (num_add n (Num 0))"
| "js_add digits (Number n) (Number k) = Number (num_add n k)"

text \<open>
  \<open>String.prototype.replace\<close> with a string pattern and a replacement without \<open>$\<close>:
  only the first occurrence of the pattern is replaced.
\<close>

fun js_replace :: "string \<Rightarrow> string \<Rightarrow> string \<Rightarrow> string" where
  "js_replace pat rep [] = (if pat = [] then rep else [])"
| "js_replace pat rep (c # cs) =
     (if take (length pat) (c # cs) = pat then rep @ drop (length pat) (c # cs)
      else c # js_replace pat rep cs)"

section \<open>Members that every object inherits\<close>

text \<open>
  The names under which \<open>Object.prototype\<close> holds a member. \<open>__proto__\<close> is an accessor:
  it reads as the prototype of the object it is read from, and assigning it a value
  that is not an object does nothing. The other eleven are functions.
\<close>

definition object_members :: "string list" where
  "object_members =
     [''constructor'', ''__defineGetter__'', ''__defineSetter__'', ''hasOwnProperty'',
      ''__lookupGetter__'', ''__lookupSetter__'', ''isPrototypeOf'', ''propertyIsEnumerable'',
      ''toString'', ''valueOf'', ''__proto__'', ''toLocaleString'']"

section \<open>Nested records and \<open>Map.getNestedValue\<close>\<close>

text \<open>
  A record of a JSON file. An object is the list of its members; the first member of a
  name is the one a lookup finds.
\<close>

datatype json =
    JNull | JBool bool | JNumber jsnum | JString string
  | JArray "json list" | JObject "(string \<times> json) list"

text \<open>
  The properties a value has of its own: an object has its members, a string and an
  array have their indices and \<open>length\<close>, a number and a boolean have none.
\<close>

definition own_prop :: "json \<Rightarrow> string \<Rightarrow> json option" where
  "own_prop v name =
     (case v of
        JNull \<Rightarrow> None
      | JBool b \<Rightarrow> None
      | JNumber n \<Rightarrow> None
      | JString s \<Rightarrow>
          (case canonical_index name of
             Some i \<Rightarrow> if i < length s then Some (JString [s ! i]) else None
           | None \<Rightarrow> if name = ''length'' then Some (JNumber (Num (of_nat (length s)))) else None)
      | JArray xs \<Rightarrow>
          (case canonical_index name of
             Some i \<Rightarrow> if i < length xs then Some (xs ! i) else None
           | None \<Rightarrow> if name = ''length'' then Some (JNumber (Num (of_nat (length xs)))) else None)
      | JObject kvs \<Rightarrow> map_of kvs name)"

text \<open>
  A name that a value does not have of its own is looked up in its prototypes, where
  the methods of objects, arrays, strings and numbers are found. Which names those are,
  and what they hold, is the engine's: \<open>inherits v name\<close> tells whether the value \<open>v\<close>
  inherits a member called \<open>name\<close>, and \<open>beyond v name rest\<close> is what \<open>getNestedValue\<close>
  then returns or throws when it goes on from that member with the keys \<open>rest\<close>.
\<close>

record host =
  inherits :: "json \<Rightarrow> string \<Rightarrow> bool"
  beyond :: "json \<Rightarrow> string \<Rightarrow> string list \<Rightarrow> error + jsval"

text \<open>
  The loop \<open>ret = ret[keys[i]]\<close>, where \<open>None\<close> is \<open>undefined\<close>: reading a property of
  \<open>undefined\<close> or of \<open>null\<close> throws. The loop ends with an exception, with the value
  that the last lookup reached, or outside the record, at an inherited member.
\<close>

datatype outcome = Threw error | Reached "json option" | Outside "error + jsval"

fun walk :: "host \<Rightarrow> json option \<Rightarrow> string list \<Rightarrow> outcome" where
  "walk host ret [] = Reached ret"
| "walk host None (k # ks) = Threw TypeError"
| "walk host (Some v) (k # ks) =
     (if v = JNull then Threw TypeError
      else case own_prop v k of
             Some x \<Rightarrow> walk host (Some x) ks
           | None \<Rightarrow>
               if inherits host v k then Outside (beyond host v k ks) else walk host None ks)"

fun json_truthy :: "json \<Rightarrow> bool" where
  "json_truthy JNull = False"
| "json_truthy (JBool b) = b"
| "json_truthy (JNumber n) = num_truthy n"
| "json_truthy (JString s) = (s \<noteq> [])"
| "json_truthy (JArray xs) = True"
| "json_truthy (JObject kvs) = True"

text \<open>The results of a list of steps: the first exception, or all the values.\<close>

fun collect :: "(error + 'a) list \<Rightarrow> error + 'a list" where
  "collect [] = Inr []"
| "collect (Inl x # rs) = Inl x"
| "collect (Inr v # rs) = (case collect rs of Inl x \<Rightarrow> Inl x | Inr vs \<Rightarrow> Inr (v # vs))"

text \<open>
  \<open>v.toString()\<close>. An object finds \<open>toString\<close> among its own members first, and a member
  of a record is never a function: the call throws. Without such a member, an object is
  \<open>[object Object]\<close>. An array joins the strings of its elements with commas, \<open>null\<close>
  elements giving the empty string; the string of an element that is an object is taken
  through its \<open>toString\<close> in the same way, and with a member of that name it cannot be
  taken at all.
\<close>

fun json_to_string :: "(rat \<Rightarrow> string) \<Rightarrow> json \<Rightarrow> error + string" where
  "json_to_string digits JNull = Inr ''null''"
| "json_to_string digits (JBool b) = Inr (if b then ''true'' else ''false'')"
| "json_to_string digits (JNumber n) = Inr (number_to_string digits n)"
| "json_to_string digits (JString s) = Inr s"
| "json_to_string digits (JArray xs) =
     (case collect (map (\<lambda>x. if x = JNull then Inr [] else json_to_string digits x) xs) of
        Inl x \<Rightarrow> Inl x
      | Inr cells \<Rightarrow> Inr (js_join '','' cells))"
| "json_to_string digits (JObject kvs) =
     (if map_of kvs ''toString'' = None then Inr ''[object Object]'' else Inl TypeError)"

text \<open>\<open>if (ret) return ret.toString(); else return null;\<close>\<close>

definition string_or_null :: "(rat \<Rightarrow> string) \<Rightarrow> json option \<Rightarrow> error + jsval" where
  "string_or_null digits ret =
     (case ret of
        None \<Rightarrow> Inr Null
      | Some v \<Rightarrow>
          if json_truthy v then
            (case json_to_string digits v of Inl x \<Rightarrow> Inl x | Inr s \<Rightarrow> Inr (Str s))
          else Inr Null)"

text \<open>
  \<open>getNestedValue(data, keys)\<close>. A string is returned as it is. Of \<open>null\<close> the \<open>length\<close>
  cannot be read. A number has no \<open>length\<close>, so the loop does not run and \<open>data\<close> itself
  is converted.
\<close>

definition getNestedValue ::
  "(rat \<Rightarrow> string) \<Rightarrow> host \<Rightarrow> json \<Rightarrow> mapfield \<Rightarrow> error + jsval" where
  "getNestedValue digits host data keys =
     (case keys of
        MStatic s \<Rightarrow> Inr (Str s)
      | MNull \<Rightarrow> Inl TypeError
      | MIndex n \<Rightarrow> string_or_null digits (Some data)
      | MPath ks \<Rightarrow>
          (case walk host (Some data) ks of
             Threw x \<Rightarrow> Inl x
           | Outside r \<Rightarrow> r
           | Reached ret \<Rightarrow> string_or_null digits ret))"

section \<open>\<open>Map.convertJson\<close>\<close>

text \<open>\<open>(f === null) ? null : Map.getNestedValue(data[i], f)\<close>\<close>

definition json_field :: "(rat \<Rightarrow> string) \<Rightarrow> host \<Rightarrow> mapfield \<Rightarrow> json \<Rightarrow> error + jsval" where
  "json_field digits host f d = (if f = MNull then Inr Null else getNestedValue digits host d f)"

text \<open>
  \<open>(f === null) ? null : Map.convertTimestamp(Map.getNestedValue(data[i], f), format) - timeOffset\<close>.
  When the lookup throws, the log is as it was.
\<close>

definition json_time ::
  "(rat \<Rightarrow> string) \<Rightarrow> host \<Rightarrow> env \<Rightarrow> mapfield \<Rightarrow> jsval \<Rightarrow> json \<Rightarrow> diagnostic list
     \<Rightarrow> (error + numeric) \<times> diagnostic list" where
  "json_time digits host e f format d errors =
     (if f = MNull then (Inr NNull, errors)
      else case getNestedValue digits host d f of
             Inl x \<Rightarrow> (Inl x, errors)
           | Inr v \<Rightarrow>
               (let (t, errors') = convertTimestamp (year_one e) v format errors
                in (Inr (NNumber (js_minus t (timeOffset e))), errors')))"

text \<open>
  One record to one \<open>Chrono\<close>: the arguments of the constructor are evaluated in
  order, and the first lookup that throws ends the conversion.
\<close>

definition convertJson_row ::
  "(rat \<Rightarrow> string) \<Rightarrow> host \<Rightarrow> env \<Rightarrow> Map \<Rightarrow> json \<Rightarrow> diagnostic list
     \<Rightarrow> (error + Chrono) \<times> diagnostic list" where
  "convertJson_row digits host e m d errors =
     (case bind (json_field digits host (m_type m) d) (\<lambda>type.
           bind (json_field digits host (m_key m) d) (\<lambda>key.
           bind (json_field digits host (m_title m) d) (\<lambda>title.
           bind (json_field digits host (m_description m) d) (\<lambda>description.
             Inr (type, key, title, description))))) of
        Inl x \<Rightarrow> (Inl x, errors)
      | Inr (type, key, title, description) \<Rightarrow>
          (case json_time digits host e (m_start m) (m_timestampFormat m) d errors of
             (Inl x, errors1) \<Rightarrow> (Inl x, errors1)
           | (Inr start, errors1) \<Rightarrow>
               (case json_time digits host e (m_end m) (m_timestampFormat m) d errors1 of
                  (Inl x, errors2) \<Rightarrow> (Inl x, errors2)
                | (Inr end, errors2) \<Rightarrow>
                    (case json_field digits host (m_tags m) d of
                       Inl x \<Rightarrow> (Inl x, errors2)
                     | Inr tags \<Rightarrow>
                         (let (c, errors3) =
                                new_Chrono type key title description start end tags errors2
                          in (Inr c, errors3))))))"

fun convertJson_loop ::
  "(rat \<Rightarrow> string) \<Rightarrow> host \<Rightarrow> env \<Rightarrow> Map \<Rightarrow> json list \<Rightarrow> Chrono list \<Rightarrow> diagnostic list
     \<Rightarrow> (error + Chrono list) \<times> diagnostic list" where
  "convertJson_loop digits host e m [] chronos errors = (Inr chronos, errors)"
| "convertJson_loop digits host e m (d # rest) chronos errors =
     (case convertJson_row digits host e m d errors of
        (Inl x, errors') \<Rightarrow> (Inl x, errors')
      | (Inr c, errors') \<Rightarrow> convertJson_loop digits host e m rest (chronos @ [c]) errors')"

definition convertJson ::
  "(rat \<Rightarrow> string) \<Rightarrow> host \<Rightarrow> env \<Rightarrow> Map \<Rightarrow> json list \<Rightarrow> diagnostic list
     \<Rightarrow> (error + Chrono list) \<times> diagnostic list" where
  "convertJson digits host e m data errors =
     convertJson_loop digits host e m (drop (if m_firstRow m then 1 else 0) data) [] errors"

section \<open>\<open>Map.convert\<close>, the later conversion\<close>

text \<open>
  The version of the file that has the class \<open>ChronoSet\<close> replaces \<open>convertCsv\<close> and
  \<open>convertJson\<close> by one method \<open>convert(data: string[])\<close>. A field of its mapping is a
  string (a static value), an array of accessors, \<open>null\<close> (which is an \<open>object\<close> too, and
  cannot be iterated), or anything else. An accessor that is an array is a path for
  \<open>getNestedValue\<close>, as is \<open>null\<close>; any other accessor is a property name of the row.
\<close>

datatype property_spec = Static string | Accessors "mapfield list" | NullSpec | OtherSpec

record Map2 =
  p_type :: property_spec
  p_key :: property_spec
  p_title :: property_spec
  p_description :: property_spec
  p_start :: property_spec
  p_end :: property_spec
  p_tags :: property_spec
  p_firstRow :: bool
  p_timestampFormat :: jsval
  p_sep :: string

definition accessor_value :: "(rat \<Rightarrow> string) \<Rightarrow> host \<Rightarrow> string list \<Rightarrow> mapfield \<Rightarrow> error + jsval" where
  "accessor_value digits host row accessor =
     (case accessor of
        MPath ks \<Rightarrow> getNestedValue digits host (JArray (map JString row)) accessor
      | MNull \<Rightarrow> getNestedValue digits host (JArray (map JString row)) accessor
      | _ \<Rightarrow> Inr (row_get row (property_name accessor)))"

text \<open>The loop over the accessors of one property: the first truthy value, or \<open>null\<close>.\<close>

fun first_value :: "(rat \<Rightarrow> string) \<Rightarrow> host \<Rightarrow> string list \<Rightarrow> mapfield list \<Rightarrow> error + jsval" where
  "first_value digits host row [] = Inr Null"
| "first_value digits host row (accessor # rest) =
     (case accessor_value digits host row accessor of
        Inl x \<Rightarrow> Inl x
      | Inr v \<Rightarrow> if truthy v then Inr v else first_value digits host row rest)"

definition property_value :: "(rat \<Rightarrow> string) \<Rightarrow> host \<Rightarrow> string list \<Rightarrow> property_spec \<Rightarrow> error + jsval" where
  "property_value digits host row spec =
     (case spec of
        Static s \<Rightarrow> Inr (Str s)
      | Accessors as \<Rightarrow> first_value digits host row as
      | NullSpec \<Rightarrow> Inl TypeError
      | OtherSpec \<Rightarrow> Inr Null)"

text \<open>
  One line to one \<open>Chrono\<close>. The seven properties are resolved first, in the order of
  the literal \<open>properties\<close>; then both times go through \<open>convertTimestamp\<close> and have the
  offset subtracted, whatever they are.
\<close>

definition convert_row ::
  "(rat \<Rightarrow> string) \<Rightarrow> host \<Rightarrow> env \<Rightarrow> Map2 \<Rightarrow> string \<Rightarrow> diagnostic list
     \<Rightarrow> (error + Chrono) \<times> diagnostic list" where
  "convert_row digits host e m line errors =
     (let row = js_split (p_sep m) line in
      case bind (property_value digits host row (p_type m)) (\<lambda>type.
           bind (property_value digits host row (p_key m)) (\<lambda>key.
           bind (property_value digits host row (p_title m)) (\<lambda>title.
           bind (property_value digits host row (p_description m)) (\<lambda>description.
           bind (property_value digits host row (p_start m)) (\<lambda>start.
           bind (property_value digits host row (p_end m)) (\<lambda>end.
           bind (property_value digits host row (p_tags m)) (\<lambda>tags.
             Inr (type, key, title, description, start, end, tags)))))))) of
        Inl x \<Rightarrow> (Inl x, errors)
      | Inr (type, key, title, description, start, end, tags) \<Rightarrow>
          (let (t1, errors1) = convertTimestamp (year_one e) start (p_timestampFormat m) errors;
               (t2, errors2) = convertTimestamp (year_one e) end (p_timestampFormat m) errors1;
               (c, errors3) = new_Chrono type key title description
                                (NNumber (js_minus t1 (timeOffset e)))
                                (NNumber (js_minus t2 (timeOffset e))) tags errors2
           in (Inr c, errors3)))"

fun convert_loop ::
  "(rat \<Rightarrow> string) \<Rightarrow> host \<Rightarrow> env \<Rightarrow> Map2 \<Rightarrow> string list \<Rightarrow> Chrono list \<Rightarrow> diagnostic list
     \<Rightarrow> (error + Chrono list) \<times> diagnostic list" where
  "convert_loop digits host e m [] chronos errors = (Inr chronos, errors)"
| "convert_loop digits host e m (line # rest) chronos errors =
     (case convert_row digits host e m line errors of
        (Inl x, errors') \<Rightarrow> (Inl x, errors')
      | (Inr c, errors') \<Rightarrow> convert_loop digits host e m rest (chronos @ [c]) errors')"

definition convert ::
  "(rat \<Rightarrow> string) \<Rightarrow> host \<Rightarrow> env \<Rightarrow> Map2 \<Rightarrow> string list \<Rightarrow> diagnostic list
     \<Rightarrow> (error + Chrono list) \<times> diagnostic list" where
  "convert digits host e m data errors =
     convert_loop digits host e m (drop (if p_firstRow m then 1 else 0) data) [] errors"

section \<open>\<open>Date\<close>\<close>

text \<open>
  \<open>new Date(v)\<close> of a value that is not a string: the time value is \<open>ToNumber(v)\<close>
  truncated towards zero, and the \<open>Date\<close> is invalid (\<open>None\<close>) for \<open>NaN\<close> and beyond
  \<open>8.64 \<times> 10\<^sup>1\<^sup>5\<close> milliseconds.
\<close>

definition new_Date :: "numeric \<Rightarrow> int option" where
  "new_Date v =
     (case to_number v of
        NaN \<Rightarrow> None
      | Num r \<Rightarrow> if \<bar>r\<bar> > 8640000000000000 then None
                else Some (if r < 0 then \<lceil>r\<rceil> else \<lfloor>r\<rfloor>))"

definition pad2 :: "nat \<Rightarrow> string" where
  "pad2 n = [digit_char (n div 10 mod 10), digit_char (n mod 10)]"

definition pad3 :: "nat \<Rightarrow> string" where
  "pad3 n = [digit_char (n div 100 mod 10), digit_char (n div 10 mod 10), digit_char (n mod 10)]"

text \<open>
  \<open>toISOString().split(/[TZ]/)[1]\<close>: the time of day \<open>HH:mm:ss.sss\<close> in UTC. The date
  before the \<open>T\<close> holds neither \<open>T\<close> nor \<open>Z\<close>.
\<close>

definition iso_time :: "int \<Rightarrow> string" where
  "iso_time t =
     (let ms = nat (t mod 86400000)
      in pad2 (ms div 3600000) @ '':'' @ pad2 (ms div 60000 mod 60) @ '':''
           @ pad2 (ms div 1000 mod 60) @ ''.'' @ pad3 (ms mod 1000))"

section \<open>\<open>Chrono.toJson\<close>\<close>

record JsonTime =
  minute :: jsnum
  second :: jsnum
  totalSec :: jsnum

record ChronoJson =
  j_type :: jsval
  j_key :: jsval
  j_title :: jsval
  j_description :: jsval
  j_start :: JsonTime
  j_end :: JsonTime
  j_duration :: jsnum
  j_myAnnotTags :: "(string \<times> jsval) list"
  j_myPrimaryTagKey :: jsval

text \<open>
  \<open>getMinutes\<close> and \<open>getSeconds\<close> read the local time: \<open>tz t\<close> is the offset of the
  local zone from UTC at \<open>t\<close>, in milliseconds. On an invalid \<open>Date\<close> all three are \<open>NaN\<close>.
\<close>

definition time_json :: "(int \<Rightarrow> int) \<Rightarrow> numeric \<Rightarrow> JsonTime" where
  "time_json tz v =
     (case new_Date v of
        None \<Rightarrow> \<lparr> minute = NaN, second = NaN, totalSec = NaN \<rparr>
      | Some t \<Rightarrow> \<lparr> minute = Num (of_int ((t + tz t) div 60000 mod 60)),
                   second = Num (of_int ((t + tz t) div 1000 mod 60)),
                   totalSec = Num (of_int t * 1000) \<rparr>)"

definition toJson :: "(int \<Rightarrow> int) \<Rightarrow> Chrono \<Rightarrow> ChronoJson" where
  "toJson tz this =
     \<lparr> j_type = c_type this, j_key = c_key this, j_title = c_title this,
       j_description = c_description this,
       j_start = time_json tz (c_start this), j_end = time_json tz (c_end this),
       j_duration = c_duration this, j_myAnnotTags = [], j_myPrimaryTagKey = Null \<rparr>"

section \<open>\<open>Chrono.toCsv\<close>\<close>

definition alternate :: "string \<Rightarrow> string" where
  "alternate sep = (if sep = '','' then '';'' else '','')"

text \<open>
  \<open>f ? f.replace(sep, (sep === "," ? ";" : ",")) : ""\<close>. A truthy field that is not a
  string has no \<open>replace\<close>.
\<close>

definition text_cell :: "string \<Rightarrow> jsval \<Rightarrow> error + string" where
  "text_cell sep f =
     (if truthy f then
        (case f of Str s \<Rightarrow> Inr (js_replace sep (alternate sep) s) | _ \<Rightarrow> Inl TypeError)
      else Inr [])"

text \<open>
  \<open>s ? s.toISOString().split(/[TZ]/)[1] : ""\<close> with
  \<open>s = this.start ? new Date(this.start) : null\<close>: \<open>toISOString\<close> throws on an invalid \<open>Date\<close>.
\<close>

definition time_cell :: "numeric \<Rightarrow> error + string" where
  "time_cell v =
     (if numeric_truthy v then
        (case new_Date v of None \<Rightarrow> Inl RangeError | Some t \<Rightarrow> Inr (iso_time t))
      else Inr [])"

text \<open>\<open>s ? s.valueOf() / 1000 : ""\<close>, as \<open>join\<close> prints it.\<close>

definition seconds_cell :: "(rat \<Rightarrow> string) \<Rightarrow> numeric \<Rightarrow> string" where
  "seconds_cell digits v =
     (if numeric_truthy v then
        (case new_Date v of
           None \<Rightarrow> ''NaN''
         | Some t \<Rightarrow> number_to_string digits (Num (of_int t / 1000)))
      else [])"

text \<open>The array \<open>csv\<close>, its elements evaluated from left to right.\<close>

definition toCsv_cells :: "(rat \<Rightarrow> string) \<Rightarrow> Chrono \<Rightarrow> string \<Rightarrow> error + string list" where
  "toCsv_cells digits this sep =
     bind (text_cell sep (c_title this)) (\<lambda>title.
     bind (text_cell sep (c_description this)) (\<lambda>description.
     bind (time_cell (c_start this)) (\<lambda>start_hms.
     bind (time_cell (c_end this)) (\<lambda>end_hms.
     bind (text_cell sep (c_tags this)) (\<lambda>tags.
       Inr [title, description,
            start_hms, seconds_cell digits (c_start this),
            end_hms, seconds_cell digits (c_end this),
            number_to_string digits (c_duration this), [], tags])))))"

definition toCsv ::
  "(rat \<Rightarrow> string) \<Rightarrow> Chrono \<Rightarrow> string \<Rightarrow> diagnostic list \<Rightarrow> (error + string) \<times> diagnostic list" where
  "toCsv digits this sep errors =
     (let errors' =
            (if \<not> numeric_truthy (c_start this) \<or> \<not> numeric_truthy (c_end this) then
               errors @ [\<lparr> d_type = ''error'', d_function = ''toCsv'',
                            d_message = ''couldn't convert start or end time to Date object'',
                            d_data = [(''start'', inject (c_start this)),
                                      (''end'', inject (c_end this))] \<rparr>]
             else errors)
      in (bind (toCsv_cells digits this sep) (\<lambda>csv. Inr (js_join sep csv)), errors'))"

text \<open>A printer for examples in which every number printed is an integer.\<close>

definition no_fraction :: "rat \<Rightarrow> string" where
  "no_fraction r = []"

section \<open>The store: objects and arrays\<close>

text \<open>
  A \<open>Chrono\<close> is an object and an array of them holds references, so two arrays can
  share an event and two variables can name one array. \<open>objs\<close> maps the address of an
  event to its fields, \<open>arrs\<close> the address of an array to the addresses it holds, and
  \<open>next_arr\<close> is the next unused array address.
\<close>

record heap =
  objs :: "nat \<Rightarrow> Chrono"
  arrs :: "nat \<Rightarrow> nat list"
  next_arr :: nat

definition alloc :: "nat list \<Rightarrow> heap \<Rightarrow> nat \<times> heap" where
  "alloc xs h = (next_arr h, h\<lparr> arrs := (arrs h)(next_arr h := xs), next_arr := Suc (next_arr h) \<rparr>)"

text \<open>
  \<open>ChronoSet\<close>: the constructor stores the array it is given in both fields. (The static
  list \<open>ChronoSet.sets\<close> is not read by any operation modelled here.)
\<close>

record ChronoSet =
  cs_chronos :: nat
  cs_chronos_backup :: nat

definition new_ChronoSet :: "nat \<Rightarrow> ChronoSet" where
  "new_ChronoSet chronos = \<lparr> cs_chronos = chronos, cs_chronos_backup = chronos \<rparr>"

section \<open>\<open>Jsonify\<close>\<close>

text \<open>
  The local object \<open>keys\<close> is created as \<open>{}\<close>, so it inherits the members of
  \<open>Object.prototype\<close>, and the test \<open>key in keys\<close> finds them. What \<open>keys\<close> holds under
  a name of its own is a number, or the string that \<open>+= 1\<close> made of an inherited
  function: \<open>native name\<close> is the source text that the engine prints for the function
  \<open>Object.prototype\<close> holds under \<open>name\<close>.
\<close>

datatype counter = Count nat | Text string

text \<open>
  The value of \<open>keys[name]\<close> after the \<open>if\<close>, for a name other than \<open>__proto__\<close>: one more
  than the number before, the string before with \<open>1\<close> appended, or at first sight \<open>0\<close>,
  unless the name is inherited: then the text of the function with \<open>1\<close> appended.
\<close>

definition increment :: "(string \<Rightarrow> string) \<Rightarrow> (string \<rightharpoonup> counter) \<Rightarrow> string \<Rightarrow> counter" where
  "increment native keys name =
     (case keys name of
        Some (Count k) \<Rightarrow> Count (k + 1)
      | Some (Text t) \<Rightarrow> Text (t @ ''1'')
      | None \<Rightarrow> if name \<in> set object_members then Text (native name @ ''1'') else Count 0)"

fun counter_string :: "counter \<Rightarrow> string" where
  "counter_string (Count n) = show_nat n"
| "counter_string (Text t) = t"

text \<open>
  \<open>obj[key] = v\<close> on an object created as \<open>{}\<close>: under \<open>__proto__\<close> an object is made
  the prototype, and no member is added.
\<close>

definition put :: "(string \<rightharpoonup> 'a) \<Rightarrow> string \<Rightarrow> 'a \<Rightarrow> (string \<rightharpoonup> 'a)" where
  "put obj key v = (if key = ''__proto__'' then obj else obj(key \<mapsto> v))"

text \<open>
  The two local objects \<open>keys\<close> and \<open>json\<close>, as the members they have of their own, and
  the number of calls of \<open>getUuid\<close> made so far. \<open>getUuid\<close> draws on \<open>Math.random\<close>: its
  successive results are the parameter \<open>uuid\<close>.
\<close>

record jsonify_state =
  js_keys :: "string \<rightharpoonup> counter"
  js_json :: "string \<rightharpoonup> ChronoJson"
  js_uuids :: nat

text \<open>
  One round of the loop. For the key \<open>__proto__\<close> the test \<open>in\<close> succeeds, \<open>+= 1\<close>
  assigns a string to the accessor, which ignores it, and \<open>keys[key]\<close> reads
  \<open>Object.prototype\<close>, whose \<open>toString()\<close> is \<open>[object Object]\<close>.
\<close>

definition Jsonify_step ::
  "(rat \<Rightarrow> string) \<Rightarrow> (string \<Rightarrow> string) \<Rightarrow> (int \<Rightarrow> int) \<Rightarrow> (nat \<Rightarrow> string) \<Rightarrow> nat
     \<Rightarrow> jsonify_state \<times> heap \<Rightarrow> jsonify_state \<times> heap" where
  "Jsonify_step digits native tz uuid a sh =
     (let st = fst sh; h = snd sh; c = objs h a in
      if truthy (c_key c) then
        let name = to_string digits (c_key c);
            n = increment native (js_keys st) name;
            keys' = (if name = ''__proto__'' then js_keys st else (js_keys st)(name \<mapsto> n));
            key = (if name = ''__proto__'' then ''[object Object]'' else counter_string n) @ name;
            c' = c\<lparr> c_key := Str key \<rparr>
        in (st\<lparr> js_keys := keys', js_json := put (js_json st) key (toJson tz c') \<rparr>,
            h\<lparr> objs := (objs h)(a := c') \<rparr>)
      else
        let key = uuid (js_uuids st);
            c' = c\<lparr> c_key := Str key \<rparr>
        in (st\<lparr> js_json := put (js_json st) key (toJson tz c'), js_uuids := Suc (js_uuids st) \<rparr>,
            h\<lparr> objs := (objs h)(a := c') \<rparr>))"

fun Jsonify_loop ::
  "(rat \<Rightarrow> string) \<Rightarrow> (string \<Rightarrow> string) \<Rightarrow> (int \<Rightarrow> int) \<Rightarrow> (nat \<Rightarrow> string) \<Rightarrow> nat list
     \<Rightarrow> jsonify_state \<times> heap \<Rightarrow> jsonify_state \<times> heap" where
  "Jsonify_loop digits native tz uuid [] sh = sh"
| "Jsonify_loop digits native tz uuid (a # as) sh =
     Jsonify_loop digits native tz uuid as (Jsonify_step digits native tz uuid a sh)"

text \<open>
  \<open>Chrono.Jsonify(chronos)\<close> and \<open>ChronoSet.Jsonify()\<close> run the same loop, the first on
  the array it is given and the second on \<open>this.chronos\<close>.
\<close>

definition Jsonify ::
  "(rat \<Rightarrow> string) \<Rightarrow> (string \<Rightarrow> string) \<Rightarrow> (int \<Rightarrow> int) \<Rightarrow> (nat \<Rightarrow> string) \<Rightarrow> nat \<Rightarrow> heap
     \<Rightarrow> (string \<rightharpoonup> ChronoJson) \<times> heap" where
  "Jsonify digits native tz uuid chronos h =
     (let sh = Jsonify_loop digits native tz uuid (arrs h chronos)
                 (\<lparr> js_keys = Map.empty, js_json = Map.empty, js_uuids = 0 \<rparr>, h)
      in (js_json (fst sh), snd sh))"

definition ChronoSet_Jsonify ::
  "(rat \<Rightarrow> string) \<Rightarrow> (string \<Rightarrow> string) \<Rightarrow> (int \<Rightarrow> int) \<Rightarrow> (nat \<Rightarrow> string) \<Rightarrow> ChronoSet \<Rightarrow> heap
     \<Rightarrow> (string \<rightharpoonup> ChronoJson) \<times> heap" where
  "ChronoSet_Jsonify digits native tz uuid this h =
     Jsonify digits native tz uuid (cs_chronos this) h"

section \<open>\<open>ChronoSet.FindSuccessivePairs\<close>\<close>

text \<open>
  What a property read gives where it is compared with \<open>===\<close>: a value, or a member
  found in a prototype. \<open>OfObject name\<close> is what \<open>Object.prototype\<close> gives under
  \<open>name\<close> to an object created as \<open>{}\<close>; \<open>OfChrono name\<close> is what an event finds in
  \<open>Chrono.prototype\<close>: a method of the class, the class itself under \<open>constructor\<close>,
  and \<open>Chrono.prototype\<close> under \<open>__proto__\<close>. Two members are equal when they are the
  same member of the same prototype.
\<close>

datatype member = Field jsval | OfObject string | OfChrono string

fun same_member :: "member \<Rightarrow> member \<Rightarrow> bool" where
  "same_member (Field a) (Field b) = strict_eq a b"
| "same_member (OfObject n) (OfObject m) = (n = m)"
| "same_member (OfChrono n) (OfChrono m) = (n = m)"
| "same_member _ _ = False"

definition chrono_members :: "string list" where
  "chrono_members = [''constructor'', ''toJson'', ''toCsv'', ''toOldCsv'', ''__proto__'']"

text \<open>
  \<open>c[key]\<close> on an event: a field, else a member of \<open>Chrono.prototype\<close>, else one of
  \<open>Object.prototype\<close>, else \<open>undefined\<close>.
\<close>

definition chrono_prop :: "Chrono \<Rightarrow> string \<Rightarrow> member" where
  "chrono_prop c name =
     (if name = ''type'' then Field (c_type c)
      else if name = ''key'' then Field (c_key c)
      else if name = ''title'' then Field (c_title c)
      else if name = ''description'' then Field (c_description c)
      else if name = ''start'' then Field (inject (c_start c))
      else if name = ''end'' then Field (inject (c_end c))
      else if name = ''duration'' then Field (Number (c_duration c))
      else if name = ''tags'' then Field (c_tags c)
      else if name = ''myPrimaryTagKey'' then Field (c_myPrimaryTagKey c)
      else if name \<in> set chrono_members then OfChrono name
      else if name \<in> set object_members then OfObject name
      else Field Undefined)"

text \<open>
  A filter object is the list of its properties. Each \<open>filter\<close> call makes a new array;
  with no property at all the result is the array that was passed in.
\<close>

fun filter_keys :: "(string \<times> member) list \<Rightarrow> nat \<Rightarrow> heap \<Rightarrow> nat \<times> heap" where
  "filter_keys [] r h = (r, h)"
| "filter_keys ((key, v) # rest) r h =
     (let (r', h') = alloc (filter (\<lambda>a. same_member (chrono_prop (objs h a) key) v) (arrs h r)) h
      in filter_keys rest r' h')"

text \<open>\<open>flags.IS_SAME_AS\<close> is the first member of its \<open>enum\<close>, the number \<open>0\<close>.\<close>

definition IS_SAME_AS :: jsval where
  "IS_SAME_AS = Number (Num 0)"

text \<open>\<open>obj[name]\<close> on a filter object: a property of its own, else an inherited member.\<close>

definition obj_get :: "(string \<times> jsval) list \<Rightarrow> string \<Rightarrow> member" where
  "obj_get obj name =
     (case map_of obj name of
        Some v \<Rightarrow> Field v
      | None \<Rightarrow> if name \<in> set object_members then OfObject name else Field Undefined)"

text \<open>\<open>startKey[key]\<close> for each \<open>key in startKey\<close>: the properties of the object itself.\<close>

definition start_values :: "(string \<times> jsval) list \<Rightarrow> (string \<times> member) list" where
  "start_values startKey = map (\<lambda>(key, v). (key, Field v)) startKey"

text \<open>\<open>endKey[key] === flags.IS_SAME_AS ? startKey[key] : endKey[key]\<close>\<close>

definition end_values :: "(string \<times> jsval) list \<Rightarrow> (string \<times> jsval) list \<Rightarrow> (string \<times> member) list" where
  "end_values startKey endKey =
     map (\<lambda>(key, v). (key, if strict_eq v IS_SAME_AS then obj_get startKey key else Field v)) endKey"

text \<open>\<open>indexOf\<close>: the first position, or \<open>-1\<close>.\<close>

fun index_of :: "nat list \<Rightarrow> nat \<Rightarrow> int" where
  "index_of [] a = -1"
| "index_of (b # bs) a =
     (if b = a then 0 else let r = index_of bs a in if r < 0 then -1 else r + 1)"

definition getIndecies :: "nat list \<Rightarrow> nat list \<Rightarrow> int list" where
  "getIndecies A B = map (index_of B) A"

text \<open>\<open>xs.splice(i, 1)\<close>: a negative \<open>i\<close> counts from the end.\<close>

definition splice1 :: "int \<Rightarrow> 'a list \<Rightarrow> 'a list" where
  "splice1 i xs =
     (let n = int (length xs);
          s = nat (if i < 0 then max (n + i) 0 else min i n)
      in take s xs @ drop (Suc s) xs)"

text \<open>
  The inner loop over \<open>ends\<close>, from position \<open>i\<close> with the elements from there on: it
  gives the final \<open>end\<close> (\<open>None\<close> is \<open>undefined\<close>) and the position spliced out of \<open>ends\<close>
  at the \<open>break\<close>, if the \<open>break\<close> is reached.
\<close>

fun scan :: "nat list \<Rightarrow> int \<Rightarrow> nat \<Rightarrow> nat option \<Rightarrow> nat list \<Rightarrow> nat option \<times> nat option" where
  "scan chronos index i end [] = (end, None)"
| "scan chronos index i end (x # rest) =
     (if i = 0 \<or> (case end of None \<Rightarrow> -1 | Some e \<Rightarrow> index_of chronos e) \<le> index
      then scan chronos index (i + 1) (Some x) rest
      else (end, Some (i - 1)))"

text \<open>The eight assignments to \<open>start\<close>, each reading \<open>end\<close>.\<close>

definition merge :: "(rat \<Rightarrow> string) \<Rightarrow> Chrono \<Rightarrow> Chrono \<Rightarrow> Chrono" where
  "merge digits start end =
     start\<lparr> c_type := (if truthy (c_type start) then c_type start else c_type end),
            c_key := (if truthy (c_key start) then c_key start else c_key end),
            c_title := (if truthy (c_title start) then c_title start else c_title end),
            c_description :=
              (if truthy (c_description start) then c_description start else c_description end),
            c_end := c_start end,
            c_duration := js_minus (c_start end) (c_start start),
            c_tags := js_add digits (c_tags start) (c_tags end),
            c_myPrimaryTagKey :=
              (if truthy (c_myPrimaryTagKey start) then c_myPrimaryTagKey start
               else c_myPrimaryTagKey end) \<rparr>"

text \<open>
  The loop \<open>for (let start of pairs)\<close>, at position \<open>k\<close> of the array \<open>pairs\<close> as it is
  then. With \<open>ends\<close> empty, \<open>end\<close> stays \<open>undefined\<close> and reading \<open>end.start\<close> (or
  \<open>end.type\<close> before it) throws; until then \<open>start\<close> has only been assigned its own values.
\<close>

function pair_loop ::
  "(rat \<Rightarrow> string) \<Rightarrow> nat \<Rightarrow> nat \<Rightarrow> nat \<Rightarrow> nat \<Rightarrow> heap \<Rightarrow> (error + unit) \<times> heap" where
  "pair_loop digits chronos pairs ends k h =
     (if k < length (arrs h pairs) then
        (let start = arrs h pairs ! k;
             index = index_of (arrs h chronos) start;
             found = scan (arrs h chronos) index 0 None (arrs h ends);
             h1 = (case snd found of
                     None \<Rightarrow> h
                   | Some j \<Rightarrow> h\<lparr> arrs := (arrs h)(ends := splice1 (int j) (arrs h ends)) \<rparr>)
         in case fst found of
              None \<Rightarrow> (Inl TypeError, h1)
            | Some e \<Rightarrow>
                pair_loop digits chronos pairs ends (k + 1)
                  (h1\<lparr> objs := (objs h1)(start := merge digits (objs h1 start) (objs h1 e)) \<rparr>))
      else (Inr (), h))"
  by pat_completeness auto
termination
  by (relation "measure (\<lambda>(digits, chronos, pairs, ends, k, h). length (arrs h pairs) - k)")
     (auto simp: splice1_def Let_def split: option.splits)

declare pair_loop.simps [simp del]

text \<open>
  The method of \<open>ChronoSet\<close>: it gives the array \<open>pairs\<close> or the exception, the object
  with its \<open>chronos\<close> field as assigned at the end, and the store. (The static variant
  of an earlier build takes the array \<open>chronos\<close> as an argument, runs the same loops on
  it and returns \<open>pairs\<close> or \<open>chronos.concat(pairs)\<close>.)
\<close>

definition FindSuccessivePairs ::
  "(rat \<Rightarrow> string) \<Rightarrow> ChronoSet \<Rightarrow> (string \<times> jsval) list \<Rightarrow> (string \<times> jsval) list \<Rightarrow> heap
     \<Rightarrow> (error + nat) \<times> ChronoSet \<times> heap" where
  "FindSuccessivePairs digits this startKey endKey h =
     (let (starts, h1) = filter_keys (start_values startKey) (cs_chronos this) h;
          pop1 = getIndecies (arrs h1 starts) (arrs h1 (cs_chronos this));
          (ends, h2) = filter_keys (end_values startKey endKey) (cs_chronos this) h1;
          indeciesToPop = pop1 @ getIndecies (arrs h2 ends) (arrs h2 (cs_chronos this));
          pairs = starts
      in case pair_loop digits (cs_chronos this) pairs ends 0 h2 of
           (Inl e, h3) \<Rightarrow> (Inl e, this, h3)
         | (Inr u, h3) \<Rightarrow>
             (let h4 = h3\<lparr> arrs := (arrs h3)(cs_chronos this :=
                              foldl (\<lambda>xs i. splice1 i xs) (arrs h3 (cs_chronos this))
                                (rev (sort indeciesToPop))) \<rparr>;
                  (r, h5) = alloc (arrs h4 (cs_chronos this) @ arrs h4 pairs) h4
              in (Inr pairs, this\<lparr> cs_chronos := r \<rparr>, h5)))"

section \<open>Properties to be stated\<close>

text \<open>The invariant of an event: its duration is its end minus its start.\<close>

definition duration_consistent :: "Chrono \<Rightarrow> bool" where
  "duration_consistent c = (c_duration c = js_minus (c_end c) (c_start c))"

text \<open>
  The comparison \<open>c.duration == c.end - c.start\<close> as the program makes it: on two
  numbers \<open>==\<close> is \<open>===\<close>, which \<open>NaN\<close> fails against itself.
\<close>

definition duration_equals :: "Chrono \<Rightarrow> bool" where
  "duration_equals c =
     strict_eq (Number (c_duration c)) (Number (js_minus (c_end c) (c_start c)))"

text \<open>
  The lookups of a path stay within the record when none of them finds an inherited
  member. A value prints when neither it nor, in an array, any of its elements is an
  object with a member of its own named \<open>toString\<close>; a path prints when the value it
  leads to does.
\<close>

definition within_record :: "host \<Rightarrow> json \<Rightarrow> string list \<Rightarrow> bool" where
  "within_record host data ks =
     (case walk host (Some data) ks of Outside r \<Rightarrow> False | _ \<Rightarrow> True)"

fun printable :: "json \<Rightarrow> bool" where
  "printable (JObject kvs) = (map_of kvs ''toString'' = None)"
| "printable (JArray xs) = list_all printable xs"
| "printable v = True"

definition prints :: "host \<Rightarrow> json \<Rightarrow> string list \<Rightarrow> bool" where
  "prints host data ks =
     (case walk host (Some data) ks of Reached (Some v) \<Rightarrow> printable v | _ \<Rightarrow> True)"

text \<open>An event passes a filter when each property of the filter equals its field.\<close>

definition matches :: "heap \<Rightarrow> (string \<times> member) list \<Rightarrow> nat \<Rightarrow> bool" where
  "matches h kvs a = list_all (\<lambda>(key, v). same_member (chrono_prop (objs h a) key) v) kvs"

text \<open>A key that \<open>Jsonify\<close> finds in \<open>keys\<close> before any event has put it there.\<close>

definition inherited_key :: "(rat \<Rightarrow> string) \<Rightarrow> jsval \<Rightarrow> bool" where
  "inherited_key digits k = (truthy k \<and> to_string digits k \<in> set object_members)"

text \<open>
  The key that the event at position \<open>i\<close> is to end with, from the keys \<open>ks\<close> the events
  start with: a key that is present is prefixed with the number of earlier events of
  the same key, and an absent key becomes the next generated identifier.
\<close>

definition final_key :: "(rat \<Rightarrow> string) \<Rightarrow> (nat \<Rightarrow> string) \<Rightarrow> jsval list \<Rightarrow> nat \<Rightarrow> string" where
  "final_key digits uuid ks i =
     (let k = ks ! i; before = take i ks in
      if truthy k then
        show_nat (length (filter (\<lambda>k'. truthy k' \<and> to_string digits k' = to_string digits k) before))
          @ to_string digits k
      else uuid (length (filter (\<lambda>k'. \<not> truthy k') before)))"

definition starts_with_digit :: "string \<Rightarrow> bool" where
  "starts_with_digit s = (case s of [] \<Rightarrow> False | c # cs \<Rightarrow> is_dec_digit c)"

text \<open>The keys that the loop of \<open>Jsonify\<close> assigns, as a function of the keys alone.\<close>

fun assign ::
  "(rat \<Rightarrow> string) \<Rightarrow> (nat \<Rightarrow> string) \<Rightarrow> (string \<rightharpoonup> nat) \<Rightarrow> nat \<Rightarrow> jsval list \<Rightarrow> string list" where
  "assign digits uuid keys u [] = []"
| "assign digits uuid keys u (k # ks) =
     (if truthy k then
        (let name = to_string digits k;
             n = (case keys name of Some c \<Rightarrow> c + 1 | None \<Rightarrow> 0)
         in (show_nat n @ name) # assign digits uuid (keys(name \<mapsto> n)) u ks)
      else uuid u # assign digits uuid keys (Suc u) ks)"

definition next_count :: "(string \<rightharpoonup> nat) \<Rightarrow> string \<Rightarrow> nat" where
  "next_count keys name = (case keys name of Some c \<Rightarrow> c + 1 | None \<Rightarrow> 0)"

section \<open>Sample inputs\<close>

text \<open>
  The event that a conversion builds from a record with only a type and a start
  time, or with only a key; and the store that holds a list of events at the addresses
  \<open>0, 1, ...\<close> and the array of all of them at address \<open>0\<close>.
\<close>

definition event :: "string \<Rightarrow> rat \<Rightarrow> Chrono" where
  "event ty st = fst (new_Chrono (Str ty) Null Null Null (NNumber (Num st)) NNull Null [])"

definition keyed :: "jsval \<Rightarrow> Chrono" where
  "keyed k = fst (new_Chrono Null k Null Null (NNumber (Num 1)) NNull Null [])"

definition blank :: Chrono where
  "blank = fst (new_Chrono Null Null Null Null NNull NNull Null [])"

definition heap_of :: "Chrono list \<Rightarrow> heap" where
  "heap_of cs = \<lparr> objs = (\<lambda>a. if a < length cs then cs ! a else blank),
                  arrs = (\<lambda>r. if r = 0 then [0..<length cs] else []),
                  next_arr = 1 \<rparr>"

definition utc :: "int \<Rightarrow> int" where
  "utc t = 0"

definition sample_uuid :: "nat \<Rightarrow> string" where
  "sample_uuid n = ''uuid-'' @ show_nat n"

text \<open>The text that V8 prints for the functions of \<open>Object.prototype\<close>.\<close>

definition v8_native :: "string \<Rightarrow> string" where
  "v8_native name =
     ''function '' @ (if name = ''constructor'' then ''Object'' else name) @ ''() { [native code] }''"

text \<open>
  A host for records in which every value inherits the members of \<open>Object.prototype\<close>.
  The examples read no inherited member, so what lies beyond one is not consulted.
\<close>

definition sample_host :: host where
  "sample_host = \<lparr> inherits = (\<lambda>v name. name \<in> set object_members),
                    beyond = (\<lambda>v name rest. Inr Null) \<rparr>"

definition sample_env :: env where
  "sample_env = \<lparr> timeOffset = NNumber (Num 0), year_one = - 62135596800000 \<rparr>"

text \<open>A mapping that reads the start time from column 0 and has no accessor for the end.\<close>

definition sample_map :: Map where
  "sample_map = \<lparr> m_type = MNull, m_key = MNull, m_title = MNull, m_description = MNull,
                   m_start = MIndex 0, m_end = MNull, m_tags = MNull, m_firstRow = False,
                   m_timestampFormat = Str ''pythonic'', m_sep = '','' \<rparr>"

text \<open>The same for the later conversion, where an absent accessor is the empty array.\<close>

definition sample_map2 :: Map2 where
  "sample_map2 = \<lparr> p_type = Accessors [], p_key = Accessors [], p_title = Accessors [],
                    p_description = Accessors [], p_start = Accessors [MIndex 0],
                    p_end = Accessors [], p_tags = Accessors [], p_firstRow = False,
                    p_timestampFormat = Str ''pythonic'', p_sep = '','' \<rparr>"

definition start_filter :: "(string \<times> jsval) list" where
  "start_filter = [(''type'', Str ''start'')]"

definition stop_filter :: "(string \<times> jsval) list" where
  "stop_filter = [(''type'', Str ''stop'')]"

section \<open>Decimal numerals\<close>

lemma digit_char_simps:
  "digit_char 0 = CHR ''0''" "digit_char (Suc 0) = CHR ''1''" "digit_char 1 = CHR ''1''"
  "digit_char 2 = CHR ''2''" "digit_char 3 = CHR ''3''" "digit_char 4 = CHR ''4''"
  "digit_char 5 = CHR ''5''" "digit_char 6 = CHR ''6''" "digit_char 7 = CHR ''7''"
  "digit_char 8 = CHR ''8''" "digit_char 9 = CHR ''9''"
  by (simp_all add: digit_char_def)

lemma below_ten: "d < 10 \<Longrightarrow> d \<in> {0, 1, 2, 3, 4, 5, 6, 7, 8, 9 :: nat}"
  by auto

lemma digit_char_props:
  assumes "d < 10"
  shows "is_dec_digit (digit_char d)" and "digit_val (digit_char d) = Some d"
  using below_ten [OF assms] by (auto simp: digit_char_def is_dec_digit_def digit_val_def)

lemma show_nat_digits: "list_all is_dec_digit (show_nat n)"
proof (induction n rule: show_nat.induct)
  case (1 n)
  show ?case
  proof (cases "n < 10")
    case True
    then show ?thesis by (simp add: show_nat.simps [of n] digit_char_props)
  next
    case False
    then show ?thesis using 1 by (simp add: show_nat.simps [of n] digit_char_props)
  qed
qed


lemma radix_value_snoc: "radix_value R (z @ [c]) = radix_value R z * R + the (digit_val c)"
  by (simp add: radix_value_def)

text \<open>Reading the numeral of a number gives the number back, so the numerals differ.\<close>

lemma radix_value_show_nat: "radix_value 10 (show_nat n) = n"
proof (induction n rule: show_nat.induct)
  case (1 n)
  show ?case
  proof (cases "n < 10")
    case True
    then show ?thesis by (simp add: show_nat.simps [of n] radix_value_def digit_char_props)
  next
    case False
    then have "radix_value 10 (show_nat (n div 10)) = n div 10" using 1 by simp
    then show ?thesis using False
      by (simp add: show_nat.simps [of n] radix_value_snoc digit_char_props)
  qed
qed

lemma show_nat_inj: "show_nat n = show_nat m \<Longrightarrow> n = m"
  using radix_value_show_nat by metis

section \<open>Timestamp conversion: results\<close>







text \<open>
  C9. For every format, \<open>convertTimestamp(null, format)\<close> returns \<open>null\<close> and appends
  exactly one diagnostic of kind \<open>error\<close> with message \<open>invalid timestamp\<close> to the log;
  the call returns normally, with the earlier entries of the log kept.
\<close>

theorem convertTimestamp_null:
  "\<exists>d. convertTimestamp yearOne Null format errors = (NNull, errors @ [d])
       \<and> d_type d = ''error'' \<and> d_message d = ''invalid timestamp''
       \<and> d_function d = ''convertTimestamp''"
  by (simp add: convertTimestamp_def Let_def)




section \<open>The constructor and the pairing keep the duration consistent\<close>

lemma new_Chrono_consistent:
  "duration_consistent (fst (new_Chrono type key title description start end tags errors))"
  by (simp add: duration_consistent_def new_Chrono_def Let_def)

lemma new_Chrono_start:
  "c_start (fst (new_Chrono type key title description start end tags errors)) = start"
  by (simp add: new_Chrono_def Let_def)

lemma new_Chrono_end:
  "c_end (fst (new_Chrono type key title description start end tags errors)) =
     (if end = NUndefined \<or> end = NNull \<or> end = NNumber (Num 0) then start else end)"
  by (simp add: new_Chrono_def Let_def)

lemma merge_consistent: "duration_consistent (merge digits s e)"
  by (simp add: duration_consistent_def merge_def)

lemma filter_keys_objs: "objs (snd (filter_keys kvs r h)) = objs h"
  by (induction kvs r h rule: filter_keys.induct) (auto simp: alloc_def split: prod.splits)

lemma pair_loop_consistent:
  "duration_consistent (objs h a) \<Longrightarrow>
     duration_consistent (objs (snd (pair_loop digits chronos pairs ends k h)) a)"
proof (induction digits chronos pairs ends k h rule: pair_loop.induct)
  case (1 digits chronos pairs ends k h)
  show ?case
  proof (cases "k < length (arrs h pairs)")
    case False
    then show ?thesis using "1.prems" by (simp add: pair_loop.simps)
  next
    case True
    define start where "start = arrs h pairs ! k"
    define found where
      "found = scan (arrs h chronos) (index_of (arrs h chronos) start) 0 None (arrs h ends)"
    define h1 where "h1 = (case snd found of None \<Rightarrow> h
        | Some j \<Rightarrow> h\<lparr> arrs := (arrs h)(ends := splice1 (int j) (arrs h ends)) \<rparr>)"
    have o1: "objs h1 = objs h" by (simp add: h1_def split: option.splits)
    show ?thesis
    proof (cases "fst found")
      case None
      then have "pair_loop digits chronos pairs ends k h = (Inl TypeError, h1)"
        using True by (simp add: pair_loop.simps [of digits chronos pairs ends k h] Let_def
            start_def found_def h1_def)
      then show ?thesis using "1.prems" o1 by simp
    next
      case (Some e)
      define h2 where
        "h2 = h1\<lparr> objs := (objs h1)(start := merge digits (objs h1 start) (objs h1 e)) \<rparr>"
      have eq: "pair_loop digits chronos pairs ends k h
                  = pair_loop digits chronos pairs ends (k + 1) h2"
        using True Some by (simp add: pair_loop.simps [of digits chronos pairs ends k h] Let_def
            start_def found_def h1_def h2_def)
      have "duration_consistent (objs h2 a)"
        using "1.prems" o1 by (simp add: h2_def merge_consistent)
      then have "duration_consistent (objs (snd (pair_loop digits chronos pairs ends (k + 1) h2)) a)"
        using "1.IH" [OF True start_def refl found_def h1_def Some] unfolding h2_def by blast
      then show ?thesis using eq by simp
    qed
  qed
qed

lemma FindSuccessivePairs_objs:
  "objs (snd (snd (FindSuccessivePairs digits this startKey endKey h))) =
   objs (snd (pair_loop digits (cs_chronos this)
      (fst (filter_keys (start_values startKey) (cs_chronos this) h))
      (fst (filter_keys (end_values startKey endKey) (cs_chronos this)
             (snd (filter_keys (start_values startKey) (cs_chronos this) h))))
      0
      (snd (filter_keys (end_values startKey endKey) (cs_chronos this)
             (snd (filter_keys (start_values startKey) (cs_chronos this) h))))))"
  by (simp add: FindSuccessivePairs_def Let_def alloc_def split: prod.splits sum.splits)

lemma heap_of_consistent: "duration_consistent (objs (heap_of cs) a) = (a < length cs \<longrightarrow> duration_consistent (cs ! a))"
  by (simp add: heap_of_def blank_def new_Chrono_consistent)

text \<open>
  Where the duration is the difference, the comparison of the two succeeds exactly
  when the difference is a number; when it is not, the duration is \<open>NaN\<close>.
\<close>

lemma duration_equals_iff:
  assumes "duration_consistent c"
  shows "duration_equals c = (js_minus (c_end c) (c_start c) \<noteq> NaN)"
    and "js_minus (c_end c) (c_start c) = NaN \<Longrightarrow> c_duration c = NaN"
  using assms
  by (cases "js_minus (c_end c) (c_start c)"; simp add: duration_consistent_def duration_equals_def)+

text \<open>
  C8, as the code has it. An event leaves the constructor with its duration computed
  as \<open>end - start\<close>, where \<open>end\<close> is the start when the argument is absent, \<open>null\<close> or
  \<open>0\<close>. The merge of the pairing writes \<open>duration\<close> as the new \<open>end\<close> minus \<open>start\<close>, so
  every event whose duration is that difference before \<open>FindSuccessivePairs\<close> has it so
  afterwards, whether the call returns or throws. For such an event the comparison
  \<open>duration == end - start\<close> holds when \<open>end - start\<close> is a number; when it is not, the
  duration is \<open>NaN\<close> and the comparison fails.
\<close>

theorem duration_is_end_minus_start:
  "duration_consistent (fst (new_Chrono type key title description start end tags errors))
   \<and> c_end (fst (new_Chrono type key title description start end tags errors)) =
       (if end = NUndefined \<or> end = NNull \<or> end = NNumber (Num 0) then start else end)
   \<and> duration_consistent (merge digits s e)
   \<and> c_end (merge digits s e) = c_start e
   \<and> (duration_consistent (objs h a) \<longrightarrow>
        duration_consistent
          (objs (snd (snd (FindSuccessivePairs digits this startKey endKey h))) a))
   \<and> (duration_consistent c \<longrightarrow>
        duration_equals c = (js_minus (c_end c) (c_start c) \<noteq> NaN)
      \<and> (js_minus (c_end c) (c_start c) = NaN \<longrightarrow> c_duration c = NaN))"
proof -
  have "c_end (merge digits s e) = c_start e" by (simp add: merge_def)
  moreover have "duration_consistent c \<longrightarrow>
        duration_equals c = (js_minus (c_end c) (c_start c) \<noteq> NaN)
      \<and> (js_minus (c_end c) (c_start c) = NaN \<longrightarrow> c_duration c = NaN)"
    using duration_equals_iff by blast
  ultimately show ?thesis
    using new_Chrono_consistent new_Chrono_end merge_consistent
    by (simp add: FindSuccessivePairs_objs pair_loop_consistent filter_keys_objs)
qed

theorem duration_is_end_minus_start_witness:
  "duration_consistent (objs (heap_of [event ''start'' 10, event ''stop'' 50]) 0)
   \<and> duration_consistent
        (objs (snd (snd (FindSuccessivePairs no_fraction (new_ChronoSet 0) start_filter stop_filter
                          (heap_of [event ''start'' 10, event ''stop'' 50])))) 0)
   \<and> c_duration
        (objs (snd (snd (FindSuccessivePairs no_fraction (new_ChronoSet 0) start_filter stop_filter
                          (heap_of [event ''start'' 10, event ''stop'' 50])))) 0) = Num 40
   \<and> duration_equals
        (objs (snd (snd (FindSuccessivePairs no_fraction (new_ChronoSet 0) start_filter stop_filter
                          (heap_of [event ''start'' 10, event ''stop'' 50])))) 0)"
proof -
  let ?h = "heap_of [event ''start'' 10, event ''stop'' 50]"
  let ?c = "objs (snd (snd (FindSuccessivePairs no_fraction (new_ChronoSet 0) start_filter
                              stop_filter ?h))) 0"
  have a: "duration_consistent (objs ?h 0)"
    by (simp add: heap_of_consistent event_def new_Chrono_consistent)
  have b: "c_duration ?c = Num 40"
    by code_simp
  have d: "js_minus (c_end ?c) (c_start ?c) = Num 40"
    by code_simp
  from a b d duration_is_end_minus_start
    [where digits = no_fraction and h = ?h and a = 0 and this = "new_ChronoSet 0"
       and startKey = start_filter and endKey = stop_filter and c = ?c]
  show ?thesis by simp
qed

text \<open>
  Against C8 as stated: the line \<open>abc\<close> has no number to read, so the event converted
  from it has the start, the end and the duration \<open>NaN\<close>, and \<open>duration == end - start\<close>
  is false of it.
\<close>

theorem duration_nan_counterexample:
  "map c_start (fst (convertCsv sample_env sample_map [''abc''] [])) = [NNumber NaN]
   \<and> map c_duration (fst (convertCsv sample_env sample_map [''abc''] [])) = [NaN]
   \<and> map duration_equals (fst (convertCsv sample_env sample_map [''abc''] [])) = [False]"
  by (intro conjI; code_simp)

section \<open>Conversion of records\<close>

lemma csv_time_null: "csv_time e MNull format row errors = (NNull, errors)"
  by (simp add: csv_time_def)

lemma convertCsv_row_null:
  "(m_start m = MNull \<longrightarrow> c_start (fst (convertCsv_row e m line errors)) = NNull)
   \<and> (m_end m = MNull \<longrightarrow>
        c_end (fst (convertCsv_row e m line errors)) = c_start (fst (convertCsv_row e m line errors)))"
  by (auto simp: convertCsv_row_def Let_def csv_time_null new_Chrono_start new_Chrono_end
      split: prod.splits)

lemma convertCsv_loop_elems:
  "c \<in> set (fst (convertCsv_loop e m ls acc errors)) \<Longrightarrow>
     c \<in> set acc \<or> (\<exists>line errs. c = fst (convertCsv_row e m line errs))"
proof (induction ls arbitrary: acc errors)
  case Nil
  then show ?case by simp
next
  case (Cons l ls)
  obtain c' errors' where r: "convertCsv_row e m l errors = (c', errors')"
    by (cases "convertCsv_row e m l errors")
  with Cons.prems have "c \<in> set (fst (convertCsv_loop e m ls (acc @ [c']) errors'))"
    by simp
  from Cons.IH [OF this] show ?case
  proof
    assume "c \<in> set (acc @ [c'])"
    then have "c \<in> set acc \<or> c = fst (convertCsv_row e m l errors)" using r by auto
    then show ?thesis by blast
  next
    assume "\<exists>line errs. c = fst (convertCsv_row e m line errs)"
    then show ?thesis by blast
  qed
qed

lemma json_time_null: "json_time digits host e MNull format d errors = (Inr NNull, errors)"
  by (simp add: json_time_def)

lemma convertJson_row_null:
  assumes "convertJson_row digits host e m d errors = (Inr c, errors')"
  shows "(m_start m = MNull \<longrightarrow> c_start c = NNull) \<and> (m_end m = MNull \<longrightarrow> c_end c = c_start c)"
proof -
  from assms obtain ty k ti de st en ta errors1 errors2 where
    s: "json_time digits host e (m_start m) (m_timestampFormat m) d errors = (Inr st, errors1)"
    and e: "json_time digits host e (m_end m) (m_timestampFormat m) d errors1 = (Inr en, errors2)"
    and c: "c = fst (new_Chrono ty k ti de st en ta errors2)"
    unfolding convertJson_row_def
    by (auto split: sum.splits prod.splits) (metis fst_conv)
  have "m_start m = MNull \<Longrightarrow> st = NNull" using s by (simp add: json_time_null)
  moreover have "m_end m = MNull \<Longrightarrow> en = NNull" using e by (simp add: json_time_null)
  ultimately show ?thesis unfolding c by (simp add: new_Chrono_start new_Chrono_end)
qed

lemma convertJson_loop_elems:
  "fst (convertJson_loop digits host e m ds acc errors) = Inr cs \<Longrightarrow> c \<in> set cs \<Longrightarrow>
     c \<in> set acc \<or> (\<exists>d errs errs'. convertJson_row digits host e m d errs = (Inr c, errs'))"
proof (induction ds arbitrary: acc errors)
  case Nil
  then show ?case by simp
next
  case (Cons d ds)
  show ?case
  proof (cases "convertJson_row digits host e m d errors")
    case (Pair r errors')
    show ?thesis
    proof (cases r)
      case (Inl x)
      then show ?thesis using Cons.prems Pair by simp
    next
      case (Inr c')
      then have "fst (convertJson_loop digits host e m ds (acc @ [c']) errors') = Inr cs"
        using Cons.prems Pair by simp
      from Cons.IH [OF this Cons.prems(2)] show ?thesis
      proof
        assume "c \<in> set (acc @ [c'])"
        then have "c \<in> set acc \<or> convertJson_row digits host e m d errors = (Inr c, errors')"
          using Pair Inr by auto
        then show ?thesis by blast
      next
        assume "\<exists>d errs errs'. convertJson_row digits host e m d errs = (Inr c, errs')"
        then show ?thesis by blast
      qed
    qed
  qed
qed

text \<open>
  C5, as the code has it. In \<open>convertCsv\<close> and \<open>convertJson\<close>, a \<open>null\<close> accessor is not
  looked up and no offset is subtracted: the constructor is given \<open>null\<close>. With the
  start accessor \<open>null\<close> every event has \<open>start = null\<close>; with the end accessor \<open>null\<close>
  every event has its \<open>end\<close> equal to its \<open>start\<close>, by the default of the constructor.
\<close>

theorem convert_null_accessor:
  "csv_time e MNull format row errors = (NNull, errors)
   \<and> json_time digits host e MNull format d errors = (Inr NNull, errors)
   \<and> (\<forall>c \<in> set (fst (convertCsv e m lines errors)).
        (m_start m = MNull \<longrightarrow> c_start c = NNull)
      \<and> (m_end m = MNull \<longrightarrow> c_end c = c_start c))
   \<and> (\<forall>cs. fst (convertJson digits host e m records errors) = Inr cs \<longrightarrow>
        (\<forall>c \<in> set cs.
           (m_start m = MNull \<longrightarrow> c_start c = NNull)
         \<and> (m_end m = MNull \<longrightarrow> c_end c = c_start c)))"
proof -
  have csv: "\<And>c. c \<in> set (fst (convertCsv e m lines errors))
          \<Longrightarrow> (m_start m = MNull \<longrightarrow> c_start c = NNull) \<and> (m_end m = MNull \<longrightarrow> c_end c = c_start c)"
  proof -
    fix c assume "c \<in> set (fst (convertCsv e m lines errors))"
    then obtain line errs where "c = fst (convertCsv_row e m line errs)"
      unfolding convertCsv_def using convertCsv_loop_elems by fastforce
    then show "(m_start m = MNull \<longrightarrow> c_start c = NNull) \<and> (m_end m = MNull \<longrightarrow> c_end c = c_start c)"
      using convertCsv_row_null by simp
  qed
  have json: "\<And>cs c. fst (convertJson digits host e m records errors) = Inr cs \<Longrightarrow> c \<in> set cs
          \<Longrightarrow> (m_start m = MNull \<longrightarrow> c_start c = NNull) \<and> (m_end m = MNull \<longrightarrow> c_end c = c_start c)"
  proof -
    fix cs c assume "fst (convertJson digits host e m records errors) = Inr cs" "c \<in> set cs"
    then obtain d errs errs' where "convertJson_row digits host e m d errs = (Inr c, errs')"
      unfolding convertJson_def using convertJson_loop_elems by fastforce
    then show "(m_start m = MNull \<longrightarrow> c_start c = NNull) \<and> (m_end m = MNull \<longrightarrow> c_end c = c_start c)"
      by (rule convertJson_row_null)
  qed
  from csv json show ?thesis using csv_time_null json_time_null by blast
qed

lemma convertCsv_sample:
  "map c_start (fst (convertCsv sample_env sample_map [''1''] [])) = [NNumber (Num 1000)]"
  "map c_end (fst (convertCsv sample_env sample_map [''1''] [])) = [NNumber (Num 1000)]"
  by code_simp+

theorem convert_null_accessor_witness:
  "m_end sample_map = MNull
   \<and> length (fst (convertCsv sample_env sample_map [''1''] [])) = 1
   \<and> map c_end (fst (convertCsv sample_env sample_map [''1''] []))
       = map c_start (fst (convertCsv sample_env sample_map [''1''] []))"
proof -
  have a: "m_end sample_map = MNull" by (simp add: sample_map_def)
  have b: "length (fst (convertCsv sample_env sample_map [''1''] [])) = 1"
    using convertCsv_sample(1) [THEN arg_cong, of length] by simp
  have "\<forall>c \<in> set (fst (convertCsv sample_env sample_map [''1''] [])). c_end c = c_start c"
    using a convert_null_accessor
      [of sample_env "Str ''pythonic''" "[]" "[]" no_fraction sample_host JNull sample_map
          "[''1'']" "[]"]
    by blast
  then have "map c_end (fst (convertCsv sample_env sample_map [''1''] []))
       = map c_start (fst (convertCsv sample_env sample_map [''1''] []))"
    by simp
  with a b show ?thesis by blast
qed

text \<open>
  Against C5 as stated: with the end accessor \<open>null\<close> and the start read from the line
  \<open>1\<close> (seconds, no offset), the event's \<open>end\<close> is \<open>1000\<close>, not \<open>null\<close>.
\<close>

theorem convertCsv_null_end_counterexample:
  "m_end sample_map = MNull
   \<and> map c_end (fst (convertCsv sample_env sample_map [''1''] [])) = [NNumber (Num 1000)]"
  using convertCsv_sample(2) by (simp add: sample_map_def)

subsection \<open>The later conversion subtracts the offset from an absent time\<close>

lemma convert_row_absent_start:
  assumes "p_start m = Accessors []" "convert_row digits host e m line errors = (Inr c, errors')"
  shows "c_start c = NNumber (js_minus NNull (timeOffset e))"
proof -
  let ?row = "js_split (p_sep m) line"
  have pv: "property_value digits host ?row (p_start m) = Inr Null"
    using assms(1) by (simp add: property_value_def)
  from assms(2) obtain ty k ti de st en ta where
    r: "bind (property_value digits host ?row (p_type m)) (\<lambda>type.
        bind (property_value digits host ?row (p_key m)) (\<lambda>key.
        bind (property_value digits host ?row (p_title m)) (\<lambda>title.
        bind (property_value digits host ?row (p_description m)) (\<lambda>description.
        bind (property_value digits host ?row (p_start m)) (\<lambda>start.
        bind (property_value digits host ?row (p_end m)) (\<lambda>end.
        bind (property_value digits host ?row (p_tags m)) (\<lambda>tags.
          Inr (type, key, title, description, start, end, tags))))))))
         = Inr (ty, k, ti, de, st, en, ta)"
    unfolding convert_row_def Let_def by (auto split: sum.splits)
  then have start: "st = Null"
    unfolding pv by (auto simp: bind_def split: sum.splits)
  have "c = fst (new_Chrono ty k ti de
                   (NNumber (js_minus (fst (convertTimestamp (year_one e) st (p_timestampFormat m) errors))
                              (timeOffset e)))
                   (NNumber (js_minus (fst (convertTimestamp (year_one e) en (p_timestampFormat m)
                                (snd (convertTimestamp (year_one e) st (p_timestampFormat m) errors))))
                              (timeOffset e)))
                   ta
                   (snd (convertTimestamp (year_one e) en (p_timestampFormat m)
                                (snd (convertTimestamp (year_one e) st (p_timestampFormat m) errors)))))"
    using assms(2) unfolding convert_row_def Let_def r by (simp add: case_prod_beta)
  then show ?thesis unfolding start by (simp add: new_Chrono_start convertTimestamp_def Let_def)
qed

text \<open>
  With an offset of five seconds and no accessor for the end, the line \<open>10\<close> gives an
  event that starts at \<open>5000\<close> and ends at \<open>-5000\<close>: \<open>null - timeOffset\<close>.
\<close>

lemma convert_sample:
  "map_sum id (map c_start)
     (fst (convert no_fraction sample_host (sample_env\<lparr> timeOffset := NNumber (Num 5000) \<rparr>) sample_map2 [''10''] []))
   = Inr [NNumber (Num 5000)]"
  "map_sum id (map c_end)
     (fst (convert no_fraction sample_host (sample_env\<lparr> timeOffset := NNumber (Num 5000) \<rparr>) sample_map2 [''10''] []))
   = Inr [NNumber (Num (- 5000))]"
  by code_simp+

section \<open>Field resolution\<close>

lemma walk_threw: "walk host v ks = Threw x \<Longrightarrow> x = TypeError"
  by (induction host v ks rule: walk.induct) (auto split: if_splits option.splits)

text \<open>
  The walk throws exactly when a lookup that still has a key to follow has given
  \<open>undefined\<close> or \<open>null\<close>.
\<close>

lemma walk_fails_iff:
  "(walk host v ks = Threw TypeError) =
     (\<exists>n<length ks. walk host v (take n ks) = Reached None
                  \<or> walk host v (take n ks) = Reached (Some JNull))"
proof (induction ks arbitrary: v)
  case Nil
  then show ?case by simp
next
  case (Cons k ks)
  show ?case
  proof (cases v)
    case None
    then show ?thesis by auto
  next
    case (Some j)
    show ?thesis
    proof (cases "j = JNull")
      case True
      with Some show ?thesis by auto
    next
      case nn: False
      show ?thesis
      proof (cases "own_prop j k = None \<and> inherits host j k")
        case True
        then have out: "\<And>ks'. walk host v (k # ks') = Outside (beyond host j k ks')"
          using Some nn by simp
        have "\<not> (\<exists>n<length (k # ks). walk host v (take n (k # ks)) = Reached None
                   \<or> walk host v (take n (k # ks)) = Reached (Some JNull))"
        proof
          assume "\<exists>n<length (k # ks). walk host v (take n (k # ks)) = Reached None
                   \<or> walk host v (take n (k # ks)) = Reached (Some JNull)"
          then obtain n where n: "n < length (k # ks)"
            "walk host v (take n (k # ks)) = Reached None
               \<or> walk host v (take n (k # ks)) = Reached (Some JNull)" by blast
          show False
          proof (cases n)
            case 0
            with n Some nn show False by simp
          next
            case (Suc m)
            with n out [of "take m ks"] show False by simp
          qed
        qed
        then show ?thesis using out [of ks] by simp
      next
        case False
        define r where "r = own_prop j k"
        have step: "\<And>ks'. walk host v (k # ks') = walk host r ks'"
          using Some nn False by (auto simp: r_def split: option.splits)
        have "(walk host v (k # ks) = Threw TypeError) = (walk host r ks = Threw TypeError)"
          using step by simp
        also have "\<dots> = (\<exists>n<length ks. walk host r (take n ks) = Reached None
                                    \<or> walk host r (take n ks) = Reached (Some JNull))"
          by (rule Cons.IH)
        also have "\<dots> = (\<exists>n<length (k # ks). walk host v (take n (k # ks)) = Reached None
                                         \<or> walk host v (take n (k # ks)) = Reached (Some JNull))"
        proof
          assume "\<exists>n<length ks. walk host r (take n ks) = Reached None
                    \<or> walk host r (take n ks) = Reached (Some JNull)"
          then obtain n where "n < length ks"
            "walk host r (take n ks) = Reached None
               \<or> walk host r (take n ks) = Reached (Some JNull)" by blast
          then have "Suc n < length (k # ks)"
            "walk host v (take (Suc n) (k # ks)) = Reached None
               \<or> walk host v (take (Suc n) (k # ks)) = Reached (Some JNull)"
            using step by auto
          then show "\<exists>n<length (k # ks). walk host v (take n (k # ks)) = Reached None
                       \<or> walk host v (take n (k # ks)) = Reached (Some JNull)" by blast
        next
          assume "\<exists>n<length (k # ks). walk host v (take n (k # ks)) = Reached None
                     \<or> walk host v (take n (k # ks)) = Reached (Some JNull)"
          then obtain n where n: "n < length (k # ks)"
            "walk host v (take n (k # ks)) = Reached None
               \<or> walk host v (take n (k # ks)) = Reached (Some JNull)"
            by blast
          show "\<exists>n<length ks. walk host r (take n ks) = Reached None
                  \<or> walk host r (take n ks) = Reached (Some JNull)"
          proof (cases n)
            case 0
            with n Some nn show ?thesis by simp
          next
            case (Suc m)
            with n step have "m < length ks"
              "walk host r (take m ks) = Reached None
                 \<or> walk host r (take m ks) = Reached (Some JNull)" by auto
            then show ?thesis by blast
          qed
        qed
        finally show ?thesis .
      qed
    qed
  qed
qed

text \<open>The conversion to a string fails with a \<open>TypeError\<close>, and only on a value that does not print.\<close>

lemma collect_Inr: "(\<exists>vs. collect rs = Inr vs) = (\<forall>r \<in> set rs. \<exists>v. r = Inr v)"
  by (induction rs rule: collect.induct) (auto split: sum.splits)

lemma collect_Inl: "collect rs = Inl x \<Longrightarrow> Inl x \<in> set rs"
  by (induction rs rule: collect.induct) (auto split: sum.splits)

lemma json_to_string_error: "json_to_string digits v = Inl x \<Longrightarrow> x = TypeError"
proof (induction digits v arbitrary: x rule: json_to_string.induct)
  case (5 digits xs)
  then have "collect (map (\<lambda>x. if x = JNull then Inr [] else json_to_string digits x) xs) = Inl x"
    by (auto split: sum.splits)
  then obtain y where "y \<in> set xs" "y \<noteq> JNull" "json_to_string digits y = Inl x"
    using collect_Inl by fastforce
  then show ?case using 5 by blast
qed (auto split: if_splits)

lemma json_to_string_printable: "(\<exists>s. json_to_string digits v = Inr s) = printable v"
proof (induction digits v rule: json_to_string.induct)
  case (5 digits xs)
  let ?f = "\<lambda>x. if x = JNull then Inr [] else json_to_string digits x"
  have "(\<exists>s. json_to_string digits (JArray xs) = Inr s) = (\<exists>vs. collect (map ?f xs) = Inr vs)"
    by (auto split: sum.splits)
  also have "\<dots> = (\<forall>x \<in> set xs. \<exists>v. ?f x = Inr v)"
    unfolding collect_Inr by auto
  also have "\<dots> = (\<forall>x \<in> set xs. printable x)"
    using 5 by (intro ball_cong refl) auto
  finally show ?case by (simp add: list_all_iff)
qed auto

text \<open>
  C6, as the code has it. For a list of keys of which none finds a member inherited
  from a prototype, and a final value that is not, and in an array does not hold, an
  object with a member named \<open>toString\<close>: \<open>getNestedValue\<close> throws a \<open>TypeError\<close> exactly
  when a lookup before the last position yields \<open>undefined\<close> or \<open>null\<close> (the next lookup
  reads a property of it). Otherwise it returns \<open>null\<close> when the final value is
  \<open>undefined\<close> or falsy (\<open>null\<close>, \<open>0\<close>, \<open>NaN\<close>, the empty string, \<open>false\<close>), and the
  string of the final value when it is truthy.
\<close>

theorem getNestedValue_path:
  assumes "within_record host data ks" and "prints host data ks"
  shows "(getNestedValue digits host data (MPath ks) = Inl TypeError) =
           (\<exists>n<length ks. walk host (Some data) (take n ks) = Reached None
                        \<or> walk host (Some data) (take n ks) = Reached (Some JNull))
       \<and> (getNestedValue digits host data (MPath ks) = Inl TypeError
          \<or> (\<exists>ret. walk host (Some data) ks = Reached ret
                 \<and> (case ret of
                       None \<Rightarrow> getNestedValue digits host data (MPath ks) = Inr Null
                     | Some v \<Rightarrow>
                         if json_truthy v then
                           \<exists>s. json_to_string digits v = Inr s
                              \<and> getNestedValue digits host data (MPath ks) = Inr (Str s)
                         else getNestedValue digits host data (MPath ks) = Inr Null)))
       \<and> json_to_string digits (JString s) = Inr s
       \<and> json_to_string digits (JNumber n) = Inr (number_to_string digits n)
       \<and> json_to_string digits (JBool True) = Inr ''true''
       \<and> json_to_string digits (JObject []) = Inr ''[object Object]''
       \<and> json_to_string digits (JArray [JString s, JNull, JString t]) = Inr (s @ '','' @ '','' @ t)"
proof -
  have strings: "json_to_string digits (JString s) = Inr s
       \<and> json_to_string digits (JNumber n) = Inr (number_to_string digits n)
       \<and> json_to_string digits (JBool True) = Inr ''true''
       \<and> json_to_string digits (JObject []) = Inr ''[object Object]''
       \<and> json_to_string digits (JArray [JString s, JNull, JString t]) = Inr (s @ '','' @ '','' @ t)"
    by simp
  have "(getNestedValue digits host data (MPath ks) = Inl TypeError) =
           (\<exists>n<length ks. walk host (Some data) (take n ks) = Reached None
                        \<or> walk host (Some data) (take n ks) = Reached (Some JNull))
       \<and> (getNestedValue digits host data (MPath ks) = Inl TypeError
          \<or> (\<exists>ret. walk host (Some data) ks = Reached ret
                 \<and> (case ret of
                       None \<Rightarrow> getNestedValue digits host data (MPath ks) = Inr Null
                     | Some v \<Rightarrow>
                         if json_truthy v then
                           \<exists>s. json_to_string digits v = Inr s
                              \<and> getNestedValue digits host data (MPath ks) = Inr (Str s)
                         else getNestedValue digits host data (MPath ks) = Inr Null)))"
  proof (cases "walk host (Some data) ks")
    case (Threw x)
    then have x: "x = TypeError" by (rule walk_threw)
    have "getNestedValue digits host data (MPath ks) = Inl TypeError"
      using Threw x by (simp add: getNestedValue_def)
    then show ?thesis using walk_fails_iff [of host "Some data" ks] Threw x by simp
  next
    case (Outside r)
    then show ?thesis using assms(1) by (simp add: within_record_def)
  next
    case (Reached ret)
    have g: "getNestedValue digits host data (MPath ks) = string_or_null digits ret"
      using Reached by (simp add: getNestedValue_def)
    have no: "\<not> (\<exists>n<length ks. walk host (Some data) (take n ks) = Reached None
                          \<or> walk host (Some data) (take n ks) = Reached (Some JNull))"
      using walk_fails_iff [of host "Some data" ks] Reached by simp
    show ?thesis
    proof (cases ret)
      case None
      then show ?thesis using g no Reached by (simp add: string_or_null_def)
    next
      case (Some v)
      then have "printable v" using assms(2) Reached by (simp add: prints_def)
      then obtain s where s: "json_to_string digits v = Inr s"
        using json_to_string_printable [of digits v] by blast
      show ?thesis using g no Reached Some s by (simp add: string_or_null_def)
    qed
  qed
  with strings show ?thesis by blast
qed

lemma sample_plain_names:
  "\<not> inherits sample_host v ''a''" "\<not> inherits sample_host v ''b''"
  by (simp_all add: sample_host_def object_members_def)

lemma walk_sample:
  "walk sample_host (Some (JObject [(''a'', JObject [(''b'', JString ''x'')])])) [''a'', ''b'']
     = Reached (Some (JString ''x''))"
  by (simp add: own_prop_def)

theorem getNestedValue_path_witness:
  "within_record sample_host (JObject [(''a'', JObject [(''b'', JString ''x'')])]) [''a'', ''b'']
   \<and> prints sample_host (JObject [(''a'', JObject [(''b'', JString ''x'')])]) [''a'', ''b'']
   \<and> getNestedValue no_fraction sample_host (JObject [(''a'', JObject [(''b'', JString ''x'')])])
        (MPath [''a'', ''b'']) = Inr (Str ''x'')"
proof -
  let ?d = "JObject [(''a'', JObject [(''b'', JString ''x'')])]"
  have w: "within_record sample_host ?d [''a'', ''b'']"
    unfolding within_record_def walk_sample by simp
  have p: "prints sample_host ?d [''a'', ''b'']"
    unfolding prints_def walk_sample by simp
  from getNestedValue_path [OF w p, of no_fraction]
  have "getNestedValue no_fraction sample_host ?d (MPath [''a'', ''b'']) = Inr (Str ''x'')"
    by (auto simp: walk_sample less_Suc_eq own_prop_def)
  with w p show ?thesis by blast
qed

text \<open>
  Against C6 as stated: in the empty record the lookup of \<open>a\<close> yields \<open>undefined\<close>, and
  with a second key \<open>b\<close> to follow the resolution throws instead of returning \<open>null\<close>;
  and where every lookup succeeds and the final value is \<open>0\<close>, the result is \<open>null\<close>, not
  the string of the value.
\<close>

theorem getNestedValue_throws_counterexample:
  "walk sample_host (Some (JObject [])) [''a''] = Reached None
   \<and> getNestedValue no_fraction sample_host (JObject []) (MPath [''a'', ''b'']) = Inl TypeError
   \<and> walk sample_host (Some (JObject [(''a'', JNumber (Num 0))])) [''a'']
       = Reached (Some (JNumber (Num 0)))
   \<and> getNestedValue no_fraction sample_host (JObject [(''a'', JNumber (Num 0))]) (MPath [''a''])
       = Inr Null"
  by (simp add: getNestedValue_def own_prop_def string_or_null_def sample_plain_names)

subsection \<open>Outside the record\<close>

text \<open>
  What the hypotheses set aside. A final value with a member named \<open>toString\<close> makes the
  call of \<open>toString\<close> throw; and a key that names an inherited member leads out of the
  record, to whatever the engine holds there.
\<close>

lemma getNestedValue_own_toString:
  "getNestedValue digits sample_host (JObject [(''a'', JObject [(''toString'', JNumber (Num 1))])])
     (MPath [''a'']) = Inl TypeError"
  by (simp add: getNestedValue_def own_prop_def string_or_null_def sample_plain_names)

lemma getNestedValue_inherited:
  "inherits host (JObject []) ''constructor'' \<Longrightarrow>
     getNestedValue digits host (JObject []) (MPath [''constructor'', ''name''])
       = beyond host (JObject []) ''constructor'' [''name'']"
  by (simp add: getNestedValue_def own_prop_def)

section \<open>The separator in a CSV row\<close>

lemma js_replace_first_only:
  "js_replace '','' '';'' ''a,b,c'' = ''a;b,c''" "js_replace '','' '';'' ''a,b'' = ''a;b''"
  by simp_all

text \<open>
  C7. \<open>replace\<close> with a string pattern replaces the first occurrence only. For the
  title \<open>a,b\<close> the row starts with \<open>a;b\<close>, as claimed; for the title \<open>a,b,c\<close> the title
  cell is \<open>a;b,c\<close>: a separator is left inside the field, and the row of nine cells
  reads as ten.
\<close>

theorem toCsv_replaces_first_separator_only:
  "toCsv_cells no_fraction ((event ''x'' 1000)\<lparr> c_title := Str ''a,b'' \<rparr>) '',''
     = Inr [''a;b'', [], ''00:00:01.000'', ''1'', ''00:00:01.000'', ''1'', ''0'', [], []]
   \<and> toCsv_cells no_fraction ((event ''x'' 1000)\<lparr> c_title := Str ''a,b,c'' \<rparr>) '',''
     = Inr [''a;b,c'', [], ''00:00:01.000'', ''1'', ''00:00:01.000'', ''1'', ''0'', [], []]
   \<and> toCsv no_fraction ((event ''x'' 1000)\<lparr> c_title := Str ''a,b,c'' \<rparr>) '','' []
     = (Inr ''a;b,c,,00:00:01.000,1,00:00:01.000,1,0,,'', [])
   \<and> length (js_split '','' ''a;b,c,,00:00:01.000,1,00:00:01.000,1,0,,'') = 10"
  by (simp add: toCsv_def toCsv_cells_def bind_def text_cell_def time_cell_def seconds_cell_def
      event_def new_Chrono_def js_minus_def alternate_def numeric_truthy_def new_Date_def
      iso_time_def pad2_def pad3_def digit_char_simps Let_def show_int_def show_nat.simps
      js_split_def)

theorem toCsv_replaces_first_separator_only_witness:
  "toCsv no_fraction ((event ''x'' 1000)\<lparr> c_title := Str ''a,b,c'' \<rparr>) '','' []
     = (Inr ''a;b,c,,00:00:01.000,1,00:00:01.000,1,0,,'', [])"
  using toCsv_replaces_first_separator_only by blast

section \<open>\<open>FindSuccessivePairs\<close>: filters and removal\<close>

lemma matches_Nil: "matches h [] a"
  by (simp add: matches_def)

lemma matches_Cons:
  "matches h ((key, v) # kvs) a = (same_member (chrono_prop (objs h a) key) v \<and> matches h kvs a)"
  by (simp add: matches_def)

lemma matches_objs: "objs h' = objs h \<Longrightarrow> matches h' kvs = matches h kvs"
  by (rule ext) (simp add: matches_def)

text \<open>
  What the chain of \<open>filter\<close> calls gives when the array it starts from is allocated:
  the events of that array that pass the filter, in a new array unless the filter is
  empty; no event and no earlier array is touched.
\<close>

lemma filter_keys_spec:
  "r < next_arr h \<Longrightarrow>
     arrs (snd (filter_keys kvs r h)) (fst (filter_keys kvs r h)) = filter (matches h kvs) (arrs h r)
   \<and> objs (snd (filter_keys kvs r h)) = objs h
   \<and> (\<forall>x < next_arr h. arrs (snd (filter_keys kvs r h)) x = arrs h x)
   \<and> next_arr h \<le> next_arr (snd (filter_keys kvs r h))
   \<and> fst (filter_keys kvs r h) < next_arr (snd (filter_keys kvs r h))
   \<and> (fst (filter_keys kvs r h) = r \<or> next_arr h \<le> fst (filter_keys kvs r h))"
proof (induction kvs arbitrary: r h)
  case Nil
  then show ?case by (simp add: matches_Nil)
next
  case (Cons kv kvs)
  obtain key v where kv: "kv = (key, v)" by (cases kv)
  define h1 where
    "h1 = snd (alloc (filter (\<lambda>a. same_member (chrono_prop (objs h a) key) v) (arrs h r)) h)"
  have step: "filter_keys (kv # kvs) r h = filter_keys kvs (next_arr h) h1"
    by (simp add: kv h1_def alloc_def)
  have h1: "objs h1 = objs h" "next_arr h1 = Suc (next_arr h)"
    "arrs h1 (next_arr h) = filter (\<lambda>a. same_member (chrono_prop (objs h a) key) v) (arrs h r)"
    "\<And>x. x < next_arr h \<Longrightarrow> arrs h1 x = arrs h x"
    by (simp_all add: h1_def alloc_def)
  have lt: "next_arr h < next_arr h1" using h1 by simp
  note IH = Cons.IH [OF lt]
  have m: "\<And>a. matches h1 kvs a = matches h kvs a" using matches_objs [OF h1(1)] by simp
  have "filter (matches h1 kvs) (arrs h1 (next_arr h)) = filter (matches h (kv # kvs)) (arrs h r)"
    unfolding h1(3) filter_filter by (rule filter_cong) (auto simp: kv matches_Cons m)
  then show ?case using IH h1 unfolding step by auto
qed

lemma index_of_nth: "distinct xs \<Longrightarrow> i < length xs \<Longrightarrow> index_of xs (xs ! i) = int i"
proof (induction xs arbitrary: i)
  case Nil
  then show ?case by simp
next
  case (Cons x xs)
  show ?case
  proof (cases i)
    case 0
    then show ?thesis by simp
  next
    case (Suc j)
    with Cons.prems have "xs ! j \<noteq> x" "index_of xs (xs ! j) = int j" using Cons.IH by auto
    with Suc show ?thesis by (simp add: Let_def)
  qed
qed

lemma filter_as_positions: "filter Q xs = map (nth xs) [i \<leftarrow> [0..<length xs]. Q (xs ! i)]"
proof -
  have "filter Q (map (nth xs) [0..<length xs]) = map (nth xs) [i \<leftarrow> [0..<length xs]. Q (xs ! i)]"
    by (simp add: filter_map comp_def)
  then show ?thesis by (simp add: map_nth)
qed

lemma getIndecies_filter:
  assumes "distinct xs"
  shows "getIndecies (filter Q xs) xs = map int [i \<leftarrow> [0..<length xs]. Q (xs ! i)]"
proof -
  have "map (index_of xs) (map (nth xs) [i \<leftarrow> [0..<length xs]. Q (xs ! i)])
          = map int [i \<leftarrow> [0..<length xs]. Q (xs ! i)]"
    using assms by (simp add: index_of_nth)
  then show ?thesis unfolding getIndecies_def by (subst filter_as_positions)
qed

lemma splice1_append: "i < length xs \<Longrightarrow> splice1 (int i) (xs @ ys) = splice1 (int i) xs @ ys"
  by (simp add: splice1_def Let_def min_def)

lemma splice1_last: "splice1 (int (length xs)) (xs @ [x]) = xs"
  by (simp add: splice1_def Let_def)

lemma length_splice1: "i < length xs \<Longrightarrow> length (splice1 (int i) xs) = length xs - 1"
  by (simp add: splice1_def Let_def min_def)

lemma foldl_splice1_append:
  "sorted_wrt (>) is \<Longrightarrow> \<forall>i \<in> set is. i < length xs \<Longrightarrow>
     foldl (\<lambda>xs i. splice1 i xs) (xs @ ys) (map int is)
       = foldl (\<lambda>xs i. splice1 i xs) xs (map int is) @ ys"
proof (induction "is" arbitrary: xs)
  case Nil
  then show ?case by simp
next
  case (Cons i "is")
  have i: "i < length xs" using Cons.prems by simp
  have "\<forall>j \<in> set is. j < length (splice1 (int i) xs)"
    using Cons.prems i by (auto simp: length_splice1)
  moreover have "sorted_wrt (>) is" using Cons.prems by simp
  ultimately show ?case using Cons.IH i by (simp add: splice1_append)
qed

text \<open>Splicing out the positions of a sublist, from the last to the first, removes it.\<close>

lemma removal:
  "foldl (\<lambda>xs i. splice1 i xs) xs (rev (map int [i \<leftarrow> [0..<length xs]. Q (xs ! i)]))
     = filter (\<lambda>x. \<not> Q x) xs"
proof (induction xs rule: rev_induct)
  case Nil
  then show ?case by simp
next
  case (snoc x xs)
  let ?ps = "[i \<leftarrow> [0..<length xs]. Q (xs ! i)]"
  have ps: "[i \<leftarrow> [0..<length xs]. Q ((xs @ [x]) ! i)] = ?ps"
    by (rule filter_cong) (auto simp: nth_append)
  show ?case
  proof (cases "Q x")
    case True
    then show ?thesis using snoc ps by (simp add: splice1_last)
  next
    case False
    have sw: "sorted_wrt (>) (rev ?ps)"
      by (simp add: sorted_wrt_rev sorted_wrt_filter)
    have lt: "\<forall>i \<in> set (rev ?ps). i < length xs" by auto
    have "foldl (\<lambda>xs i. splice1 i xs) (xs @ [x]) (map int (rev ?ps))
            = foldl (\<lambda>xs i. splice1 i xs) xs (map int (rev ?ps)) @ [x]"
      by (rule foldl_splice1_append [OF sw lt])
    then show ?thesis using snoc ps False by (simp add: rev_map)
  qed
qed

lemma sorted_positions: "sorted (map int [i \<leftarrow> [0..<n]. Q i])"
  by (simp add: sorted_map sorted_wrt_filter)

lemma remove_matching:
  assumes "distinct xs"
  shows "foldl (\<lambda>xs i. splice1 i xs) xs (rev (sort (getIndecies (filter Q xs) xs)))
           = filter (\<lambda>x. \<not> Q x) xs"
  by (simp add: getIndecies_filter [OF assms] sorted_sort_id [OF sorted_positions] removal)

text \<open>
  A filter on a name that is not a field compares members of the prototypes: with the
  flag, \<open>toString\<close> is the same function for the filter object and for every event, and
  \<open>toJson\<close> is \<open>undefined\<close> on the filter object and a method on the event.
\<close>

lemma inherited_filter_names:
  "matches h (end_values [] [(''toString'', IS_SAME_AS)]) a"
  "\<not> matches h (end_values [] [(''toJson'', IS_SAME_AS)]) a"
  "\<not> matches h (end_values [] [(''constructor'', IS_SAME_AS)]) a"
  by (simp_all add: matches_def end_values_def IS_SAME_AS_def obj_get_def chrono_prop_def
      object_members_def chrono_members_def)

lemma pair_loop_empty:
  "arrs h pairs = [] \<Longrightarrow> pair_loop digits chronos pairs ends 0 h = (Inr (), h)"
  by (simp add: pair_loop.simps)

text \<open>
  C2, as the code has it. On an allocated array of distinct events of which none
  passes the start filter, \<open>FindSuccessivePairs\<close> returns normally with an empty array
  of pairs and changes no event, and the collection it leaves is the old one without
  the events that pass the end filter: the old one itself when none passes.
\<close>

theorem FindSuccessivePairs_no_starts:
  assumes alloc: "cs_chronos this < next_arr h"
    and dist: "distinct (arrs h (cs_chronos this))"
    and none: "filter (matches h (start_values startKey)) (arrs h (cs_chronos this)) = []"
  shows "\<exists>pairs this' h'.
           FindSuccessivePairs digits this startKey endKey h = (Inr pairs, this', h')
         \<and> arrs h' pairs = []
         \<and> arrs h' (cs_chronos this') =
               filter (\<lambda>a. \<not> matches h (end_values startKey endKey) a) (arrs h (cs_chronos this))
         \<and> (filter (matches h (end_values startKey endKey)) (arrs h (cs_chronos this)) = []
               \<longrightarrow> arrs h' (cs_chronos this') = arrs h (cs_chronos this))
         \<and> objs h' = objs h"
proof -
  let ?c = "cs_chronos this"
  let ?ev = "end_values startKey endKey"
  define starts where "starts = fst (filter_keys (start_values startKey) ?c h)"
  define h1 where "h1 = snd (filter_keys (start_values startKey) ?c h)"
  define ends where "ends = fst (filter_keys ?ev ?c h1)"
  define h2 where "h2 = snd (filter_keys ?ev ?c h1)"
  note s1 = filter_keys_spec [OF alloc, of "start_values startKey", folded starts_def h1_def]
  have c1: "?c < next_arr h1" using s1 alloc by simp
  note s2 = filter_keys_spec [OF c1, of ?ev, folded ends_def h2_def]
  have a1: "arrs h1 ?c = arrs h ?c" using s1 alloc by simp
  have a2: "arrs h2 ?c = arrs h ?c" using s2 c1 a1 by simp
  have st1: "arrs h1 starts = []" using s1 none by simp
  have st2: "arrs h2 starts = []" using s2 s1 st1 by simp
  have o2: "objs h2 = objs h" using s1 s2 by simp
  have en2: "arrs h2 ends = filter (matches h ?ev) (arrs h ?c)"
    using s2 a1 s1 matches_objs [of h1 h ?ev] by simp
  define pop where
    "pop = getIndecies (arrs h1 starts) (arrs h1 ?c) @ getIndecies (arrs h2 ends) (arrs h2 ?c)"
  have pop: "pop = getIndecies (filter (matches h ?ev) (arrs h ?c)) (arrs h ?c)"
    by (simp add: pop_def st1 getIndecies_def en2 a2)
  define h4 where
    "h4 = h2\<lparr> arrs := (arrs h2)(?c := foldl (\<lambda>xs i. splice1 i xs) (arrs h2 ?c) (rev (sort pop))) \<rparr>"
  have rem: "arrs h4 ?c = filter (\<lambda>a. \<not> matches h ?ev a) (arrs h ?c)"
    by (simp add: h4_def a2 pop remove_matching [OF dist])
  have st4: "arrs h4 starts = []"
  proof (cases "starts = ?c")
    case True
    then have "arrs h ?c = []" using st2 a2 by simp
    then show ?thesis using True rem by simp
  next
    case False
    then show ?thesis using st2 by (simp add: h4_def)
  qed
  define r where "r = next_arr h4"
  define h5 where "h5 = snd (alloc (arrs h4 ?c @ arrs h4 starts) h4)"
  have lt: "starts < next_arr h4" "?c < next_arr h4"
    using s1 s2 c1 by (simp_all add: h4_def)
  have FSP: "FindSuccessivePairs digits this startKey endKey h
               = (Inr starts, this\<lparr> cs_chronos := r \<rparr>, h5)"
    unfolding FindSuccessivePairs_def Let_def
    by (simp add: case_prod_beta starts_def [symmetric] h1_def [symmetric] ends_def [symmetric]
        h2_def [symmetric] pair_loop_empty [OF st2] pop_def [symmetric] h4_def [symmetric]
        alloc_def r_def h5_def)
  have r5: "arrs h5 r = filter (\<lambda>a. \<not> matches h ?ev a) (arrs h ?c)"
    by (simp add: h5_def alloc_def r_def rem st4)
  have s5: "arrs h5 starts = []" using lt st4 by (simp add: h5_def alloc_def)
  have o5: "objs h5 = objs h" using o2 by (simp add: h5_def alloc_def h4_def)
  have keep: "filter (matches h ?ev) (arrs h ?c) = [] \<Longrightarrow> arrs h5 r = arrs h ?c"
    unfolding r5 by (simp add: filter_empty_conv)
  show ?thesis using FSP r5 s5 o5 keep by auto
qed

lemma stop_then_other:
  "cs_chronos (new_ChronoSet 0) < next_arr (heap_of [event ''stop'' 50, event ''other'' 20])"
  "distinct (arrs (heap_of [event ''stop'' 50, event ''other'' 20]) (cs_chronos (new_ChronoSet 0)))"
  "filter (matches (heap_of [event ''stop'' 50, event ''other'' 20]) (start_values start_filter))
     (arrs (heap_of [event ''stop'' 50, event ''other'' 20]) (cs_chronos (new_ChronoSet 0))) = []"
  "filter (\<lambda>a. \<not> matches (heap_of [event ''stop'' 50, event ''other'' 20])
                     (end_values start_filter stop_filter) a)
     (arrs (heap_of [event ''stop'' 50, event ''other'' 20]) (cs_chronos (new_ChronoSet 0))) = [1]"
  "arrs (heap_of [event ''stop'' 50, event ''other'' 20]) (cs_chronos (new_ChronoSet 0)) = [0, 1]"
  by code_simp+

theorem FindSuccessivePairs_no_starts_witness:
  "filter (matches (heap_of [event ''stop'' 50, event ''other'' 20]) (start_values start_filter))
     (arrs (heap_of [event ''stop'' 50, event ''other'' 20]) (cs_chronos (new_ChronoSet 0))) = []
   \<and> (\<exists>pairs this' h'.
         FindSuccessivePairs no_fraction (new_ChronoSet 0) start_filter stop_filter
           (heap_of [event ''stop'' 50, event ''other'' 20]) = (Inr pairs, this', h')
       \<and> arrs h' pairs = [] \<and> arrs h' (cs_chronos this') = [1])"
  using FindSuccessivePairs_no_starts [OF stop_then_other(1,2,3), of no_fraction stop_filter]
    stop_then_other(3,4)
  by auto

text \<open>
  Against C2 as stated: no event passes the start filter, yet the event of type
  \<open>stop\<close> at address 0 is gone from the collection after the call.
\<close>

theorem FindSuccessivePairs_removes_ends_counterexample:
  "filter (matches (heap_of [event ''stop'' 50, event ''other'' 20]) (start_values start_filter))
     (arrs (heap_of [event ''stop'' 50, event ''other'' 20]) 0) = []
   \<and> arrs (heap_of [event ''stop'' 50, event ''other'' 20]) 0 = [0, 1]
   \<and> fst (FindSuccessivePairs no_fraction (new_ChronoSet 0) start_filter stop_filter
            (heap_of [event ''stop'' 50, event ''other'' 20])) = Inr 1
   \<and> arrs (snd (snd (FindSuccessivePairs no_fraction (new_ChronoSet 0) start_filter stop_filter
                       (heap_of [event ''stop'' 50, event ''other'' 20]))))
        (cs_chronos (fst (snd (FindSuccessivePairs no_fraction (new_ChronoSet 0) start_filter
                       stop_filter (heap_of [event ''stop'' 50, event ''other'' 20]))))) = [1]"
  by (intro conjI; code_simp)

text \<open>
  The other half of the edge case: with an event that passes the start filter and none
  that passes the end filter, \<open>end\<close> stays \<open>undefined\<close> and the call throws.
\<close>

lemma FindSuccessivePairs_no_ends_throws:
  "filter (matches (heap_of [event ''start'' 50, event ''other'' 20])
            (end_values start_filter stop_filter))
     (arrs (heap_of [event ''start'' 50, event ''other'' 20]) 0) = []"
  "fst (FindSuccessivePairs no_fraction (new_ChronoSet 0) start_filter stop_filter
            (heap_of [event ''start'' 50, event ''other'' 20])) = Inl TypeError"
  by code_simp+

section \<open>\<open>FindSuccessivePairs\<close>: which end a start claims\<close>

text \<open>
  What the inner loop does in general. Among the ends other than the last, the first
  one that lies after the start is taken and spliced out. When there is none, the last
  end is taken, wherever it lies, and nothing is spliced out.
\<close>

lemma scan_from:
  "scan chronos index (Suc i) (Some e) rest =
     (let candidates = butlast (e # rest);
          skipped = takeWhile (\<lambda>a. index_of chronos a \<le> index) candidates
      in if length skipped < length candidates
         then (Some ((e # rest) ! length skipped), Some (i + length skipped))
         else (Some (last (e # rest)), None))"
proof (induction rest arbitrary: e i)
  case Nil
  then show ?case by simp
next
  case (Cons x rest)
  show ?case
  proof (cases "index_of chronos e \<le> index")
    case True
    then show ?thesis using Cons.IH [of "Suc i" x] by (simp add: Let_def)
  next
    case False
    then show ?thesis by (simp add: Let_def)
  qed
qed

lemma scan_ends:
  "scan chronos index 0 None (e # rest) =
     (let candidates = butlast (e # rest);
          skipped = takeWhile (\<lambda>a. index_of chronos a \<le> index) candidates
      in if length skipped < length candidates
         then (Some ((e # rest) ! length skipped), Some (length skipped))
         else (Some (last (e # rest)), None))"
  by (simp add: scan_from Let_def)

text \<open>
  C3. In the list \<open>start, stop, start\<close> the only end is the last element of \<open>ends\<close>: the
  inner loop finishes without reaching the \<open>break\<close> that would splice it out. The
  second start, at position 2, is therefore merged with the same end, at position 1
  before it: both merged events end at \<open>50\<close>, the second with a start of \<open>20\<close> taken
  from an event after the end it is paired with.
\<close>

theorem FindSuccessivePairs_reuses_last_end:
  "fst (FindSuccessivePairs no_fraction (new_ChronoSet 0) start_filter stop_filter
          (heap_of [event ''start'' 10, event ''stop'' 50, event ''start'' 20])) = Inr 1
   \<and> arrs (snd (snd (FindSuccessivePairs no_fraction (new_ChronoSet 0) start_filter stop_filter
          (heap_of [event ''start'' 10, event ''stop'' 50, event ''start'' 20])))) 1 = [0, 2]
   \<and> c_end (objs (snd (snd (FindSuccessivePairs no_fraction (new_ChronoSet 0) start_filter
          stop_filter (heap_of [event ''start'' 10, event ''stop'' 50, event ''start'' 20])))) 0)
       = NNumber (Num 50)
   \<and> c_end (objs (snd (snd (FindSuccessivePairs no_fraction (new_ChronoSet 0) start_filter
          stop_filter (heap_of [event ''start'' 10, event ''stop'' 50, event ''start'' 20])))) 2)
       = NNumber (Num 50)
   \<and> arrs (snd (snd (FindSuccessivePairs no_fraction (new_ChronoSet 0) start_filter stop_filter
          (heap_of [event ''start'' 10, event ''stop'' 50, event ''start'' 20])))) 2 = [1]
   \<and> index_of (arrs (heap_of [event ''start'' 10, event ''stop'' 50, event ''start'' 20]) 0) 1
       < index_of (arrs (heap_of [event ''start'' 10, event ''stop'' 50, event ''start'' 20]) 0) 2"
  by (intro conjI; code_simp)

section \<open>The backup of a \<open>ChronoSet\<close>\<close>

text \<open>
  C4. The constructor stores one array in \<open>chronos\<close> and in \<open>chronos_backup\<close>, so the
  \<open>splice\<close> calls of \<open>FindSuccessivePairs\<close> empty the backup with it: a set built on
  \<open>start, stop\<close> has a backup of two events before the call and of none after it, and
  the start event that the backup held has had its \<open>end\<close> rewritten.
\<close>

theorem backup_is_mutated:
  "arrs (heap_of [event ''start'' 10, event ''stop'' 50]) (cs_chronos_backup (new_ChronoSet 0))
     = [0, 1]
   \<and> fst (FindSuccessivePairs no_fraction (new_ChronoSet 0) start_filter stop_filter
            (heap_of [event ''start'' 10, event ''stop'' 50])) = Inr 1
   \<and> arrs (snd (snd (FindSuccessivePairs no_fraction (new_ChronoSet 0) start_filter stop_filter
                       (heap_of [event ''start'' 10, event ''stop'' 50]))))
        (cs_chronos_backup (fst (snd (FindSuccessivePairs no_fraction (new_ChronoSet 0)
                       start_filter stop_filter (heap_of [event ''start'' 10, event ''stop'' 50])))))
       = []
   \<and> c_end (objs (heap_of [event ''start'' 10, event ''stop'' 50]) 0) = NNumber (Num 10)
   \<and> c_end (objs (snd (snd (FindSuccessivePairs no_fraction (new_ChronoSet 0) start_filter
                       stop_filter (heap_of [event ''start'' 10, event ''stop'' 50])))) 0)
       = NNumber (Num 50)"
  by (intro conjI; code_simp)

section \<open>\<open>Jsonify\<close>: the keys assigned\<close>

lemma Jsonify_step_other:
  "b \<noteq> a \<Longrightarrow> objs (snd (Jsonify_step digits native tz uuid a sh)) b = objs (snd sh) b"
  by (simp add: Jsonify_step_def Let_def)

lemma Jsonify_loop_other:
  "b \<notin> set as \<Longrightarrow> objs (snd (Jsonify_loop digits native tz uuid as sh)) b = objs (snd sh) b"
  by (induction as arbitrary: sh) (auto simp: Jsonify_step_other)

text \<open>
  While \<open>keys\<close> holds numbers only and the key is not an inherited name, the counter is
  the number that \<open>next_count\<close> gives.
\<close>

lemma increment_count:
  "name \<notin> set object_members \<Longrightarrow>
     increment native (map_option Count \<circ> keys) name = Count (next_count keys name)"
  by (simp add: increment_def next_count_def split: option.splits)

lemma proto_is_member: "''__proto__'' \<in> set object_members"
  by (simp add: object_members_def)

text \<open>
  On distinct events of which none has an inherited name for its key, the loop writes
  the keys that \<open>assign\<close> computes.
\<close>

lemma Jsonify_loop_assign:
  "distinct as \<Longrightarrow> \<forall>a \<in> set as. \<not> inherited_key digits (c_key (objs h a)) \<Longrightarrow>
     js_keys st = map_option Count \<circ> keys \<Longrightarrow>
     map (\<lambda>a. c_key (objs (snd (Jsonify_loop digits native tz uuid as (st, h))) a)) as
       = map Str (assign digits uuid keys (js_uuids st) (map (\<lambda>a. c_key (objs h a)) as))"
proof (induction as arbitrary: st h keys)
  case Nil
  then show ?case by simp
next
  case (Cons a as)
  obtain st1 h1 where step: "Jsonify_step digits native tz uuid a (st, h) = (st1, h1)"
    by (cases "Jsonify_step digits native tz uuid a (st, h)")
  have a: "a \<notin> set as" "distinct as" using Cons.prems by auto
  have same: "\<And>b. b \<in> set as \<Longrightarrow> c_key (objs h1 b) = c_key (objs h b)"
  proof -
    fix b assume "b \<in> set as"
    then have "b \<noteq> a" using a by auto
    then show "c_key (objs h1 b) = c_key (objs h b)"
      using Jsonify_step_other [of b a digits native tz uuid "(st, h)"] step by simp
  qed
  have rest: "map (\<lambda>b. c_key (objs h1 b)) as = map (\<lambda>b. c_key (objs h b)) as"
    by (rule map_cong [OF refl]) (rule same)
  have plain1: "\<forall>b \<in> set as. \<not> inherited_key digits (c_key (objs h1 b))"
    using Cons.prems(2) same by simp
  have here: "objs (snd (Jsonify_loop digits native tz uuid as (st1, h1))) a = objs h1 a"
    using Jsonify_loop_other [OF a(1)] by simp
  let ?k = "c_key (objs h a)"
  let ?name = "to_string digits ?k"
  let ?n = "next_count keys ?name"
  let ?ks = "map (\<lambda>b. c_key (objs h b)) as"
  show ?case
  proof (cases "truthy ?k")
    case True
    then have plain: "?name \<notin> set object_members"
      using Cons.prems(2) by (simp add: inherited_key_def)
    then have np: "?name \<noteq> ''__proto__''" using proto_is_member by auto
    have inc: "increment native (js_keys st) ?name = Count ?n"
      unfolding Cons.prems(3) by (rule increment_count [OF plain])
    have f: "c_key (objs h1 a) = Str (show_nat ?n @ ?name)"
      "js_keys st1 = (js_keys st)(?name \<mapsto> Count ?n)" "js_uuids st1 = js_uuids st"
      using step True np inc by (auto simp: Jsonify_step_def Let_def)
    define keys1 where "keys1 = keys(?name \<mapsto> ?n)"
    have k1: "js_keys st1 = map_option Count \<circ> keys1"
      unfolding f(2) Cons.prems(3) keys1_def by (rule ext) simp
    note IH = Cons.IH [OF a(2) plain1 k1, unfolded rest f(3)]
    have lhs: "map (\<lambda>b. c_key (objs (snd (Jsonify_loop digits native tz uuid (a # as) (st, h))) b))
                 (a # as)
          = Str (show_nat ?n @ ?name) # map Str (assign digits uuid keys1 (js_uuids st) ?ks)"
      using IH here step f(1) by simp
    have "assign digits uuid keys (js_uuids st) (?k # ?ks)
            = (show_nat ?n @ ?name) # assign digits uuid keys1 (js_uuids st) ?ks"
      using True by (simp add: Let_def next_count_def keys1_def)
    then show ?thesis unfolding lhs by simp
  next
    case False
    have f: "c_key (objs h1 a) = Str (uuid (js_uuids st))" "js_keys st1 = js_keys st"
      "js_uuids st1 = Suc (js_uuids st)"
      using step False by (auto simp: Jsonify_step_def Let_def)
    have k1: "js_keys st1 = map_option Count \<circ> keys"
      unfolding f(2) by (rule Cons.prems(3))
    note IH = Cons.IH [OF a(2) plain1 k1, unfolded rest f(3)]
    have lhs: "map (\<lambda>b. c_key (objs (snd (Jsonify_loop digits native tz uuid (a # as) (st, h))) b))
                 (a # as)
          = Str (uuid (js_uuids st)) # map Str (assign digits uuid keys (Suc (js_uuids st)) ?ks)"
      using IH here step f(1) by simp
    have "assign digits uuid keys (js_uuids st) (?k # ?ks)
            = uuid (js_uuids st) # assign digits uuid keys (Suc (js_uuids st)) ?ks"
      using False by simp
    then show ?thesis unfolding lhs by simp
  qed
qed

lemma length_assign: "length (assign digits uuid keys u ks) = length ks"
  by (induction ks arbitrary: keys u) (simp_all add: Let_def)

lemma assign_nth:
  "i < length ks \<Longrightarrow>
     assign digits uuid keys u ks ! i =
       (if truthy (ks ! i) then
          show_nat (next_count keys (to_string digits (ks ! i))
                    + length (filter (\<lambda>k'. truthy k' \<and> to_string digits k' = to_string digits (ks ! i))
                                (take i ks)))
            @ to_string digits (ks ! i)
        else uuid (u + length (filter (\<lambda>k'. \<not> truthy k') (take i ks))))"
proof (induction ks arbitrary: keys u i)
  case Nil
  then show ?case by simp
next
  case (Cons k ks)
  show ?case
  proof (cases i)
    case 0
    then show ?thesis by (simp add: Let_def next_count_def)
  next
    case (Suc j)
    then have j: "j < length ks" using Cons.prems by simp
    show ?thesis
    proof (cases "truthy k")
      case True
      let ?name = "to_string digits k"
      let ?keys = "keys(?name \<mapsto> next_count keys ?name)"
      have nc: "\<And>x. next_count ?keys x
                  = (if x = ?name then next_count keys x + 1 else next_count keys x)"
        by (simp add: next_count_def)
      have "assign digits uuid keys u (k # ks) ! i = assign digits uuid ?keys u ks ! j"
        using True Suc by (simp add: Let_def next_count_def)
      also note Cons.IH [OF j, of ?keys u]
      finally show ?thesis using True Suc by (auto simp: nc)
    next
      case False
      then show ?thesis using Suc Cons.IH [OF j, of keys "Suc u"]
        by (simp add: Let_def)
    qed
  qed
qed

lemma next_count_empty: "next_count Map.empty name = 0"
  by (simp add: next_count_def)

lemma Jsonify_final_key:
  assumes "distinct (arrs h chronos)"
    and "\<forall>a \<in> set (arrs h chronos). \<not> inherited_key digits (c_key (objs h a))"
    and "i < length (arrs h chronos)"
  shows "c_key (objs (snd (Jsonify digits native tz uuid chronos h)) (arrs h chronos ! i))
           = Str (final_key digits uuid (map (\<lambda>a. c_key (objs h a)) (arrs h chronos)) i)"
proof -
  let ?as = "arrs h chronos"
  let ?st = "\<lparr> js_keys = Map.empty, js_json = Map.empty, js_uuids = 0 \<rparr>"
  let ?ks = "map (\<lambda>a. c_key (objs h a)) ?as"
  have e: "js_keys ?st = map_option Count \<circ> Map.empty" by (rule ext) simp
  have "map (\<lambda>a. c_key (objs (snd (Jsonify_loop digits native tz uuid ?as (?st, h))) a)) ?as ! i
          = map Str (assign digits uuid Map.empty 0 ?ks) ! i"
    using Jsonify_loop_assign [OF assms(1,2) e, of native tz uuid] by simp
  then have "c_key (objs (snd (Jsonify_loop digits native tz uuid ?as (?st, h))) (?as ! i))
          = Str (assign digits uuid Map.empty 0 ?ks ! i)"
    using assms(3) by (simp add: length_assign)
  also have "assign digits uuid Map.empty 0 ?ks ! i = final_key digits uuid ?ks i"
    using assms(3) by (simp add: assign_nth final_key_def Let_def next_count_empty)
  finally show ?thesis by (simp add: Jsonify_def Let_def)
qed

subsection \<open>Distinct keys\<close>

lemma digits_then_text:
  assumes "list_all is_dec_digit a" "list_all is_dec_digit b"
    and "\<not> starts_with_digit s" "\<not> starts_with_digit t" and "a @ s = b @ t"
  shows "a = b \<and> s = t"
proof -
  have tw: "\<And>x u. list_all is_dec_digit x \<Longrightarrow> \<not> starts_with_digit u
                \<Longrightarrow> takeWhile is_dec_digit (x @ u) = x"
    by (auto simp: list_all_iff starts_with_digit_def split: list.splits)
  have "takeWhile is_dec_digit (a @ s) = takeWhile is_dec_digit (b @ t)" using assms(5) by simp
  then have "a = b" using tw [OF assms(1,3)] tw [OF assms(2,4)] by simp
  then show ?thesis using assms(5) by simp
qed

lemma filter_take_mono:
  assumes "i < j" "j \<le> length ks" "P (ks ! i)"
  shows "length (filter P (take i ks)) < length (filter P (take j ks))"
proof -
  have i: "i < length ks" using assms by simp
  have "take j ks = take (Suc i) ks @ drop (Suc i) (take j ks)"
    using assms(1) by (metis Suc_leI append_take_drop_id min.absorb1 take_take)
  then have "take j ks = take i ks @ [ks ! i] @ drop (Suc i) (take j ks)"
    by (simp add: take_Suc_conv_app_nth [OF i])
  then have "filter P (take j ks)
               = filter P (take i ks) @ [ks ! i] @ filter P (drop (Suc i) (take j ks))"
    using assms(3) by (metis filter.simps(2) filter_append append_Cons append_Nil)
  then show ?thesis by simp
qed

lemma final_key_distinct:
  assumes "i < j" "j < length ks" "truthy (ks ! i)" "truthy (ks ! j)"
    and "\<not> starts_with_digit (to_string digits (ks ! i))"
    and "\<not> starts_with_digit (to_string digits (ks ! j))"
  shows "final_key digits uuid ks i \<noteq> final_key digits uuid ks j"
proof
  let ?P = "\<lambda>k k'. truthy k' \<and> to_string digits k' = to_string digits k"
  let ?ci = "length (filter (?P (ks ! i)) (take i ks))"
  let ?cj = "length (filter (?P (ks ! j)) (take j ks))"
  assume "final_key digits uuid ks i = final_key digits uuid ks j"
  then have "show_nat ?ci @ to_string digits (ks ! i) = show_nat ?cj @ to_string digits (ks ! j)"
    using assms(3,4) by (simp add: final_key_def Let_def)
  then have eq: "show_nat ?ci = show_nat ?cj"
    "to_string digits (ks ! i) = to_string digits (ks ! j)"
    using digits_then_text [OF show_nat_digits show_nat_digits assms(5,6)] by blast+
  then have "?ci = ?cj" using show_nat_inj by blast
  moreover have "length (filter (?P (ks ! j)) (take i ks)) < ?cj"
    using assms(1,2,3) eq(2) by (intro filter_take_mono) auto
  ultimately show False using eq(2) by simp
qed

text \<open>
  C1, as the code has it. On an array of distinct events of which none has for its
  key the name of a member that every object inherits (\<open>constructor\<close>, \<open>toString\<close>,
  \<open>__proto__\<close> and the like), \<open>Jsonify\<close> gives every event that has a key the decimal
  count of the earlier events with the same key followed by that key (a key that
  occurs once becomes \<open>0\<close> and the key; three events of key \<open>A\<close> get \<open>0A\<close>, \<open>1A\<close>,
  \<open>2A\<close>), and every event without a key the next generated identifier. Two events with
  keys that do not begin with a decimal digit end with different keys.
\<close>

theorem Jsonify_assigns_keys:
  assumes "distinct (arrs h chronos)"
    and "\<forall>a \<in> set (arrs h chronos). \<not> inherited_key digits (c_key (objs h a))"
  shows "(\<forall>i < length (arrs h chronos).
            c_key (objs (snd (Jsonify digits native tz uuid chronos h)) (arrs h chronos ! i))
              = Str (final_key digits uuid (map (\<lambda>a. c_key (objs h a)) (arrs h chronos)) i))
       \<and> (\<forall>i j. i < j \<and> j < length (arrs h chronos)
              \<and> truthy (c_key (objs h (arrs h chronos ! i)))
              \<and> truthy (c_key (objs h (arrs h chronos ! j)))
              \<and> \<not> starts_with_digit (to_string digits (c_key (objs h (arrs h chronos ! i))))
              \<and> \<not> starts_with_digit (to_string digits (c_key (objs h (arrs h chronos ! j))))
            \<longrightarrow> c_key (objs (snd (Jsonify digits native tz uuid chronos h)) (arrs h chronos ! i))
                  \<noteq> c_key (objs (snd (Jsonify digits native tz uuid chronos h)) (arrs h chronos ! j)))"
proof -
  let ?as = "arrs h chronos"
  let ?ks = "map (\<lambda>a. c_key (objs h a)) ?as"
  have fk: "\<And>i. i < length ?as \<Longrightarrow>
      c_key (objs (snd (Jsonify digits native tz uuid chronos h)) (?as ! i))
        = Str (final_key digits uuid ?ks i)"
    using Jsonify_final_key [OF assms] by blast
  have "\<And>i j. i < j \<Longrightarrow> j < length ?as
          \<Longrightarrow> truthy (c_key (objs h (?as ! i))) \<Longrightarrow> truthy (c_key (objs h (?as ! j)))
          \<Longrightarrow> \<not> starts_with_digit (to_string digits (c_key (objs h (?as ! i))))
          \<Longrightarrow> \<not> starts_with_digit (to_string digits (c_key (objs h (?as ! j))))
          \<Longrightarrow> c_key (objs (snd (Jsonify digits native tz uuid chronos h)) (?as ! i))
                \<noteq> c_key (objs (snd (Jsonify digits native tz uuid chronos h)) (?as ! j))"
  proof -
    fix i j
    assume h: "i < j" "j < length ?as"
      "truthy (c_key (objs h (?as ! i)))" "truthy (c_key (objs h (?as ! j)))"
      "\<not> starts_with_digit (to_string digits (c_key (objs h (?as ! i))))"
      "\<not> starts_with_digit (to_string digits (c_key (objs h (?as ! j))))"
    then have i: "i < length ?as" by simp
    have "final_key digits uuid ?ks i \<noteq> final_key digits uuid ?ks j"
      using h i by (intro final_key_distinct) simp_all
    then show "c_key (objs (snd (Jsonify digits native tz uuid chronos h)) (?as ! i))
                \<noteq> c_key (objs (snd (Jsonify digits native tz uuid chronos h)) (?as ! j))"
      using fk [OF i] fk [OF h(2)] by simp
  qed
  then show ?thesis using fk by blast
qed

lemma three_A:
  "distinct (arrs (heap_of [keyed (Str ''A''), keyed (Str ''A''), keyed Null, keyed (Str ''A'')]) 0)"
  "arrs (heap_of [keyed (Str ''A''), keyed (Str ''A''), keyed Null, keyed (Str ''A'')]) 0
     = [0, 1, 2, 3]"
  "map (\<lambda>i. final_key no_fraction sample_uuid
               (map (\<lambda>a. c_key (objs (heap_of [keyed (Str ''A''), keyed (Str ''A''), keyed Null,
                                               keyed (Str ''A'')]) a)) [0, 1, 2, 3]) i) [0, 1, 2, 3]
     = [''0A'', ''1A'', ''uuid-0'', ''2A'']"
  "map (\<lambda>a. inherited_key no_fraction
               (c_key (objs (heap_of [keyed (Str ''A''), keyed (Str ''A''), keyed Null,
                                      keyed (Str ''A'')]) a))) [0, 1, 2, 3]
     = [False, False, False, False]"
  by code_simp+

theorem Jsonify_assigns_keys_witness:
  "distinct (arrs (heap_of [keyed (Str ''A''), keyed (Str ''A''), keyed Null, keyed (Str ''A'')]) 0)
   \<and> map (\<lambda>a. inherited_key no_fraction
                 (c_key (objs (heap_of [keyed (Str ''A''), keyed (Str ''A''), keyed Null,
                                        keyed (Str ''A'')]) a))) [0, 1, 2, 3]
      = [False, False, False, False]
   \<and> map (\<lambda>a. c_key (objs (snd (Jsonify no_fraction v8_native utc sample_uuid 0
                (heap_of [keyed (Str ''A''), keyed (Str ''A''), keyed Null, keyed (Str ''A'')]))) a))
        [0, 1, 2, 3]
      = [Str ''0A'', Str ''1A'', Str ''uuid-0'', Str ''2A'']"
proof -
  let ?h = "heap_of [keyed (Str ''A''), keyed (Str ''A''), keyed Null, keyed (Str ''A'')]"
  have plain: "\<forall>a \<in> set (arrs ?h 0). \<not> inherited_key no_fraction (c_key (objs ?h a))"
    unfolding three_A(2) using three_A(4) by simp
  have "\<forall>i < length (arrs ?h 0).
          c_key (objs (snd (Jsonify no_fraction v8_native utc sample_uuid 0 ?h)) (arrs ?h 0 ! i))
            = Str (final_key no_fraction sample_uuid (map (\<lambda>a. c_key (objs ?h a)) (arrs ?h 0)) i)"
    using Jsonify_assigns_keys [OF three_A(1) plain, of v8_native utc sample_uuid] by blast
  then have "\<forall>i < 4. c_key (objs (snd (Jsonify no_fraction v8_native utc sample_uuid 0 ?h))
                              ([0, 1, 2, 3] ! i))
            = Str (final_key no_fraction sample_uuid (map (\<lambda>a. c_key (objs ?h a)) [0, 1, 2, 3]) i)"
    unfolding three_A(2) by simp
  then have "map (\<lambda>a. c_key (objs (snd (Jsonify no_fraction v8_native utc sample_uuid 0 ?h)) a))
               [0, 1, 2, 3]
           = map (\<lambda>i. Str (final_key no_fraction sample_uuid
                              (map (\<lambda>a. c_key (objs ?h a)) [0, 1, 2, 3]) i)) [0, 1, 2, 3]"
    by (simp add: numeral_eq_Suc less_Suc_eq all_conj_distrib)
  also have "\<dots> = map Str [''0A'', ''1A'', ''uuid-0'', ''2A'']"
    unfolding three_A(3) [symmetric] by (simp add: comp_def)
  finally show ?thesis using three_A(1,4) by simp
qed

text \<open>
  Against C1 as stated: an event whose key \<open>B\<close> is shared with no other event is
  given the prefix all the same.
\<close>

theorem Jsonify_prefixes_unique_key_counterexample:
  "arrs (heap_of [keyed (Str ''B'')]) 0 = [0]
   \<and> c_key (objs (heap_of [keyed (Str ''B'')]) 0) = Str ''B''
   \<and> c_key (objs (snd (Jsonify no_fraction v8_native utc sample_uuid 0
                          (heap_of [keyed (Str ''B'')]))) 0)
       = Str ''0B''"
  by (intro conjI; code_simp)

text \<open>
  Keys that begin with a digit can end up equal: of eleven events of key \<open>A\<close> and two
  of key \<open>0A\<close>, the eleventh and the last both end with \<open>10A\<close>.
\<close>

lemma Jsonify_collision:
  "c_key (objs (snd (Jsonify no_fraction v8_native utc sample_uuid 0
            (heap_of (replicate 11 (keyed (Str ''A'')) @ replicate 2 (keyed (Str ''0A'')))))) 10)
     = Str ''10A''"
  "c_key (objs (snd (Jsonify no_fraction v8_native utc sample_uuid 0
            (heap_of (replicate 11 (keyed (Str ''A'')) @ replicate 2 (keyed (Str ''0A'')))))) 12)
     = Str ''10A''"
  by code_simp+

subsection \<open>Inherited names as keys\<close>

text \<open>
  What the hypothesis sets aside. The first event of key \<open>constructor\<close> is given the
  text of the function \<open>Object\<close> with \<open>1\<close> appended for its prefix, and every event of
  key \<open>__proto__\<close> the same key \<open>[object Object]__proto__\<close>.
\<close>

lemma Jsonify_inherited_names:
  "c_key (objs (snd (Jsonify no_fraction v8_native utc sample_uuid 0
            (heap_of [keyed (Str ''constructor'')]))) 0)
     = Str ''function Object() { [native code] }1constructor''"
  "map (\<lambda>a. c_key (objs (snd (Jsonify no_fraction v8_native utc sample_uuid 0
            (heap_of [keyed (Str ''__proto__''), keyed (Str ''__proto__'')]))) a)) [0, 1]
     = [Str ''[object Object]__proto__'', Str ''[object Object]__proto__'']"
  by code_simp+

end
